theory Spec2Isabelle
  imports Complex_Main
begin

section \<open>Values of the host language\<close>

text \<open>
  The program is TypeScript on three.js. A JavaScript number is modelled as a real;
  the non-finite results (a division by a zero pixel ratio) are outside the model, and
  every statement that reads a quotient assumes a non-zero divisor. What the JavaScript
  runtime decides and the reals cannot (whether a typed array can be allocated, the
  rounding of a product, what a compiled size expression does) is a parameter of the
  model, the record \<open>runtime\<close> below. Objects that the
  code shares by reference (the WebGLRenderTargets, the video elements) live in explicit
  stores and are named by their index; objects with one owner are embedded by value.
\<close>

type_synonym number = real

text \<open>The exceptions the modelled code raises: the two \<^verbatim>\<open>throw\<close> statements of
  veda.ts, the runtime's TypeError (a property read on undefined) and RangeError (a
  typed array that cannot be made), and whatever a compiled size expression throws when
  it is called.\<close>

datatype js_error =
    SetCanvasError       \<comment> \<open>Error('Call setCanvas() before loading shaders')\<close>
  | InvalidShaderError   \<comment> \<open>TypeError('Veda.loadShader: Invalid argument. ...')\<close>
  | TypeError
  | RangeError
  | SizeExpressionError

text \<open>A texture object is named by what created it: the constructor's
  \<^verbatim>\<open>new THREE.Texture()\<close>, the texture of the WebGLRenderTarget at a store index,
  the VideoTexture of a video element, or a texture made outside the modelled code.\<close>

datatype texture =
    BlankTexture
  | TargetTexture nat
  | VideoTexture nat
  | ExternalTexture nat

datatype uvalue =
    UNum number
  | UVec2 number number
  | UVec3 number number number
  | UTex texture
  | UUndefined
  | UNaN

record uniform =
  u_type :: string
  u_value :: uvalue

type_synonym uniforms = "string \<rightharpoonup> uniform"

text \<open>JavaScript truthiness of an optional string: undefined and the empty string are
  falsy.\<close>

definition truthy :: "string option \<Rightarrow> bool" where
  "truthy s = (case s of None \<Rightarrow> False | Some v \<Rightarrow> v \<noteq> [])"

text \<open>\<^verbatim>\<open>value++\<close>: a number is incremented, anything else becomes NaN.\<close>

definition js_increment :: "uvalue \<Rightarrow> uvalue" where
  "js_increment v = (case v of UNum n \<Rightarrow> UNum (n + 1) | _ \<Rightarrow> UNaN)"

text \<open>
  A size function, as \<^verbatim>\<open>getWidth\<close> and \<^verbatim>\<open>getHeight\<close> of a target: called with the
  width and the height it returns a number, or throws (None).
\<close>

type_synonym size_fn = "number \<Rightarrow> number \<Rightarrow> number option"

text \<open>
  The JavaScript runtime, as far as the code depends on it:
  \<^item> \<open>js_Function src\<close> is \<^verbatim>\<open>new Function('$WIDTH', '$HEIGHT', 'return ' + src)\<close>:
    None when the constructor throws (a syntax error), otherwise the function made, which
    may itself throw when it is called and is taken to return a number when it returns;
  \<^item> \<open>js_mul\<close> is the product of two numbers, with the rounding of the runtime;
  \<^item> \<open>js_Float32Array n\<close> tells whether \<^verbatim>\<open>new Float32Array(n)\<close> returns for the number
    \<open>n\<close>, rather than raising a RangeError (a negative length, or one too large to
    allocate).
  Nothing is assumed of the three.
\<close>

record runtime =
  js_Function :: "string \<Rightarrow> size_fn option"
  js_mul :: "number \<Rightarrow> number \<Rightarrow> number"
  js_Float32Array :: "number \<Rightarrow> bool"

text \<open>\<^verbatim>\<open>value * 3\<close> on a uniform value: anything that is not a number gives NaN.\<close>

definition js_times :: "runtime \<Rightarrow> uvalue \<Rightarrow> number \<Rightarrow> uvalue" where
  "js_times js v k = (case v of UNum n \<Rightarrow> UNum (js_mul js n k) | _ \<Rightarrow> UNaN)"

text \<open>\<^verbatim>\<open>new Float32Array(v)\<close> for a uniform value: a number is up to the runtime; NaN,
  undefined and the modelled objects give an array of length 0.\<close>

definition typed_array_ok :: "runtime \<Rightarrow> uvalue \<Rightarrow> bool" where
  "typed_array_ok js v = (case v of UNum n \<Rightarrow> js_Float32Array js n | _ \<Rightarrow> True)"

text \<open>The remainder operator on integers: NaN (here None) for a zero divisor, otherwise
  the remainder with the sign of the dividend.\<close>

definition js_rem :: "int \<Rightarrow> int \<Rightarrow> int option" where
  "js_rem a b = (if b = 0 then None else Some (sgn a * (\<bar>a\<bar> mod \<bar>b\<bar>)))"

section \<open>video-loader.ts\<close>

record video_element =
  v_src :: string
  v_playbackRate :: number

record cache_entry =
  c_name :: string
  c_video :: nat
  c_texture :: texture

text \<open>The loader's cache is an object literal used as a dictionary: \<open>cache\<close> holds its
  own properties, a URL mapped to an entry or to null (after unload). The video elements
  made by \<^verbatim>\<open>document.createElement\<close> are kept in a store; \<open>body\<close> lists the children
  appended to the document body.\<close>

record video_loader =
  cache :: "string \<rightharpoonup> cache_entry option"
  elements :: "video_element list"
  body :: "nat list"

definition new_VideoLoader :: video_loader where
  "new_VideoLoader = \<lparr>cache = Map.empty, elements = [], body = []\<rparr>"

text \<open>
  A key that is not an own property is looked up in \<^verbatim>\<open>Object.prototype\<close>. Its
  properties, the twelve names below when nothing has extended the prototype, are
  functions (and, under \<^verbatim>\<open>__proto__\<close>, the prototype object itself): truthy values
  with no property \<^verbatim>\<open>video\<close>.
\<close>

definition inherited_key :: "string \<Rightarrow> bool" where
  "inherited_key k =
     (k \<in> set [''constructor'', ''__proto__'', ''hasOwnProperty'', ''isPrototypeOf'',
               ''propertyIsEnumerable'', ''toLocaleString'', ''toString'', ''valueOf'',
               ''__defineGetter__'', ''__defineSetter__'', ''__lookupGetter__'',
               ''__lookupSetter__''])"



text \<open>unload: with an inherited value \<^verbatim>\<open>removeChild(cache.video)\<close> is called on
  undefined and throws a TypeError before the key is set to null.\<close>

definition unload :: "string \<Rightarrow> video_loader \<Rightarrow> js_error option \<times> video_loader" where
  "unload url vl =
     (case cache vl url of
        Some (Some c) \<Rightarrow>
          (None, vl\<lparr>body := removeAll (c_video c) (body vl), cache := (cache vl)(url \<mapsto> None)\<rparr>)
      | Some None \<Rightarrow> (None, vl\<lparr>cache := (cache vl)(url \<mapsto> None)\<rparr>)
      | None \<Rightarrow>
          if inherited_key url then (Some TypeError, vl)
          else (None, vl\<lparr>cache := (cache vl)(url \<mapsto> None)\<rparr>))"


section \<open>veda.ts: the data model\<close>

record veda_options =
  o_pixelRatio :: "number option"
  o_frameskip :: "int option"
  o_vertexMode :: "string option"
  o_vertexCount :: "number option"

text \<open>The type \<^verbatim>\<open>Pass\<close>: every field is optional.\<close>

record pass_spec =
  TARGET :: "string option"
  vs :: "string option"
  fs :: "string option"
  FLOAT :: "bool option"
  WIDTH :: "string option"
  HEIGHT :: "string option"

datatype shader = Single pass_spec | Multi "pass_spec list"

text \<open>What createPlane builds. The two default shader sources are constants of a file
  that is not modelled, so they stay symbolic.\<close>

datatype shader_src = DefaultVertex | DefaultFragment | Source string | NoSource

datatype mesh_kind = Quad | Points | LineLoop | Line | LineSegments | TriStrip | TriFan | Mesh

record plane =
  p_vertexShader :: shader_src
  p_fragmentShader :: shader_src
  p_kind :: mesh_kind
  p_vertexCount :: uvalue

record webgl_render_target =
  rt_width :: number
  rt_height :: number
  rt_float :: bool
  rt_content :: "nat option"

text \<open>\<^verbatim>\<open>RenderPassTarget\<close>: the array \<open>targets\<close> always has two elements, the front
  buffer at index 0 and the back buffer at index 1, so it is a pair of store indices.\<close>

record render_pass_target =
  t_name :: string
  t_targets :: "nat \<times> nat"
  t_getWidth :: size_fn
  t_getHeight :: size_fn

text \<open>\<^verbatim>\<open>RenderPass\<close>: the camera is the same orthographic camera for every pass and
  is left out; the scene holds exactly the plane.\<close>

record render_pass =
  scene :: plane
  target :: "render_pass_target option"

record canvas_element =
  offsetWidth :: number
  offsetHeight :: number

text \<open>Of the WebGLRenderer only the pixel ratio it was given is kept; the size of its
  drawing buffer is not modelled.\<close>

record webgl_renderer =
  r_pixelRatio :: number

text \<open>One call of \<^verbatim>\<open>renderer.render(scene, camera, target, forceClear)\<close>: a missing
  target draws onto the canvas.\<close>

record draw_call =
  d_scene :: plane
  d_dest :: "nat option"
  d_forceClear :: bool

text \<open>Readings of the outside world that one animation tick consumes: the clock
  (\<^verbatim>\<open>Date.now()\<close>) and the volume the audio loader reports.\<close>

record env =
  now :: number
  volume :: number

text \<open>
  The fields of the class, then what the class reaches outside itself: \<open>rtargets\<close> is the
  store of every WebGLRenderTarget made so far (a new one takes the next index),
  \<open>draws\<close> the log of draw calls (a render target's \<open>rt_content\<close> is the position in this
  log of the last draw into it), \<open>disposed\<close> the log of \<^verbatim>\<open>texture.dispose()\<close>
  calls, \<open>audioEnabled\<close> the audio loader's flag and \<open>rafPending\<close> the number of callbacks
  handed to \<^verbatim>\<open>requestAnimationFrame\<close>.
\<close>

record veda =
  pixelRatio :: number
  frameskip :: int
  start :: number
  isPlaying :: bool
  frame :: int
  passes :: "render_pass list"
  renderer :: "webgl_renderer option"
  canvas :: "canvas_element option"
  targets :: "nat \<times> nat"
  videoLoader :: video_loader
  uniforms :: uniforms
  vertexMode :: string
  rtargets :: "webgl_render_target list"
  draws :: "draw_call list"
  disposed :: "texture list"
  audioEnabled :: bool
  rafPending :: nat

section \<open>veda.ts: the operations\<close>

text \<open>A method returns the exception it raised, if any, with the state at that moment:
  what a method did before it threw stays done.\<close>

type_synonym outcome = "js_error option \<times> veda"

definition and_then :: "outcome \<Rightarrow> (veda \<Rightarrow> outcome) \<Rightarrow> outcome" where
  "and_then r f = (case r of (None, st) \<Rightarrow> f st | (Some e, st) \<Rightarrow> (Some e, st))"

text \<open>\<^verbatim>\<open>this.uniforms[k].value = v\<close>: a TypeError when the table has no entry \<open>k\<close>.\<close>

definition set_value :: "string \<Rightarrow> uvalue \<Rightarrow> veda \<Rightarrow> outcome" where
  "set_value k v st =
     (case uniforms st k of
        None \<Rightarrow> (Some TypeError, st)
      | Some u \<Rightarrow> (None, st\<lparr>uniforms := (uniforms st)(k \<mapsto> u\<lparr>u_value := v\<rparr>)\<rparr>))"

text \<open>The swap of a buffer pair, written inline in the source as
  \<^verbatim>\<open>targets = [targets[1], targets[0]]\<close>.\<close>

definition swap_targets :: "nat \<times> nat \<Rightarrow> nat \<times> nat" where
  "swap_targets ts = (snd ts, fst ts)"

text \<open>\<^verbatim>\<open>new THREE.WebGLRenderTarget(w, h, {..., type})\<close>, not yet in the store.\<close>

definition new_WebGLRenderTarget :: "number \<Rightarrow> number \<Rightarrow> bool \<Rightarrow> webgl_render_target" where
  "new_WebGLRenderTarget w h fl = \<lparr>rt_width = w, rt_height = h, rt_float = fl, rt_content = None\<rparr>"

definition setSize :: "nat \<Rightarrow> number \<Rightarrow> number \<Rightarrow> veda \<Rightarrow> veda" where
  "setSize r w h st =
     st\<lparr>rtargets := (rtargets st)[r := (rtargets st ! r)\<lparr>rt_width := w, rt_height := h\<rparr>]\<rparr>"

text \<open>\<^verbatim>\<open>renderer.render\<close>: the call is logged, and a target receives the picture.\<close>

definition render_to :: "plane \<Rightarrow> nat option \<Rightarrow> bool \<Rightarrow> veda \<Rightarrow> veda" where
  "render_to sc dest fc st =
     st\<lparr>draws := draws st @ [\<lparr>d_scene = sc, d_dest = dest, d_forceClear = fc\<rparr>],
        rtargets := (case dest of
                       None \<Rightarrow> rtargets st
                     | Some r \<Rightarrow> (rtargets st)[r :=
                         (rtargets st ! r)\<lparr>rt_content := Some (length (draws st))\<rparr>])\<rparr>"

definition initial_uniforms :: "number \<Rightarrow> uniforms" where
  "initial_uniforms vertexCount =
     [''backbuffer'' \<mapsto> \<lparr>u_type = ''t'', u_value = UTex BlankTexture\<rparr>,
      ''mouse'' \<mapsto> \<lparr>u_type = ''v2'', u_value = UVec2 0 0\<rparr>,
      ''mouseButtons'' \<mapsto> \<lparr>u_type = ''v3'', u_value = UVec3 0 0 0\<rparr>,
      ''resolution'' \<mapsto> \<lparr>u_type = ''v2'', u_value = UVec2 0 0\<rparr>,
      ''time'' \<mapsto> \<lparr>u_type = ''f'', u_value = UNum 0\<rparr>,
      ''vertexCount'' \<mapsto> \<lparr>u_type = ''f'', u_value = UNum vertexCount\<rparr>,
      ''PASSINDEX'' \<mapsto> \<lparr>u_type = ''i'', u_value = UNum 0\<rparr>,
      ''FRAMEINDEX'' \<mapsto> \<lparr>u_type = ''i'', u_value = UNum 0\<rparr>]"

text \<open>The constructor; its second argument is the clock reading it takes.\<close>

definition new_Veda :: "veda_options \<Rightarrow> number \<Rightarrow> veda" where
  "new_Veda rc clock =
     \<lparr>pixelRatio = (case o_pixelRatio rc of None \<Rightarrow> 1 | Some x \<Rightarrow> x),
      frameskip = (case o_frameskip rc of None \<Rightarrow> 1 | Some x \<Rightarrow> x),
      start = clock,
      isPlaying = False,
      frame = 0,
      passes = [],
      renderer = None,
      canvas = None,
      targets = (0, 1),
      videoLoader = new_VideoLoader,
      uniforms = initial_uniforms (case o_vertexCount rc of None \<Rightarrow> 3000 | Some x \<Rightarrow> x),
      vertexMode = (case o_vertexMode rc of None \<Rightarrow> ''TRIANGLES'' | Some x \<Rightarrow> x),
      rtargets = [new_WebGLRenderTarget 0 0 False, new_WebGLRenderTarget 0 0 False],
      draws = [],
      disposed = [],
      audioEnabled = False,
      rafPending = 0\<rparr>"

definition setFrameskip :: "int \<Rightarrow> veda \<Rightarrow> veda" where
  "setFrameskip n st = st\<lparr>frameskip := n\<rparr>"

definition setUniform :: "string \<Rightarrow> string \<Rightarrow> uvalue \<Rightarrow> veda \<Rightarrow> veda" where
  "setUniform name ty v st = st\<lparr>uniforms := (uniforms st)(name \<mapsto> \<lparr>u_type = ty, u_value = v\<rparr>)\<rparr>"

definition mesh_kind_of :: "string \<Rightarrow> mesh_kind" where
  "mesh_kind_of m =
     (if m = ''POINTS'' then Points
      else if m = ''LINE_LOOP'' then LineLoop
      else if m = ''LINE_STRIP'' then Line
      else if m = ''LINES'' then LineSegments
      else if m = ''TRI_STRIP'' then TriStrip
      else if m = ''TRI_FAN'' then TriFan
      else Mesh)"

definition createPlane :: "runtime \<Rightarrow> string option \<Rightarrow> string option \<Rightarrow> veda \<Rightarrow> js_error + plane" where
  "createPlane js f v st =
     (if truthy v then
        (case uniforms st ''vertexCount'' of
           None \<Rightarrow> Inl TypeError
         | Some u \<Rightarrow>
             if \<not> typed_array_ok js (js_times js (u_value u) 3) then Inl RangeError
             else if \<not> typed_array_ok js (u_value u) then Inl RangeError
             else Inr \<lparr>p_vertexShader = (case v of Some src \<Rightarrow> Source src | None \<Rightarrow> NoSource),
                       p_fragmentShader = (if truthy f
                          then (case f of Some src \<Rightarrow> Source src | None \<Rightarrow> NoSource)
                          else DefaultFragment),
                       p_kind = mesh_kind_of (vertexMode st),
                       p_vertexCount = u_value u\<rparr>)
      else Inr \<lparr>p_vertexShader = DefaultVertex,
                p_fragmentShader = (case f of Some src \<Rightarrow> Source src | None \<Rightarrow> NoSource),
                p_kind = Quad,
                p_vertexCount = UUndefined\<rparr>)"

text \<open>
  A size expression is compiled when the pass is built; when the constructor throws, the
  source's \<^verbatim>\<open>catch\<close> keeps the default.
\<close>

definition size_function :: "runtime \<Rightarrow> string option \<Rightarrow> size_fn \<Rightarrow> size_fn" where
  "size_function js src dflt =
     (if truthy src then
        (case src of
           Some s \<Rightarrow> (case js_Function js s of Some g \<Rightarrow> g | None \<Rightarrow> dflt)
         | None \<Rightarrow> dflt)
      else dflt)"

definition createRenderPass :: "runtime \<Rightarrow> pass_spec \<Rightarrow> veda \<Rightarrow> (js_error + render_pass) \<times> veda" where
  "createRenderPass js pass st =
     (case canvas st of
        None \<Rightarrow> (Inl SetCanvasError, st)
      | Some cv \<Rightarrow>
          (case createPlane js (fs pass) (vs pass) st of
             Inl e \<Rightarrow> (Inl e, st)
           | Inr pl \<Rightarrow>
               if truthy (TARGET pass) then
                 (let targetName = (case TARGET pass of Some n \<Rightarrow> n | None \<Rightarrow> []);
                      textureType = (FLOAT pass = Some True);
                      getWidth = size_function js (WIDTH pass) (\<lambda>w h. Some w);
                      getHeight = size_function js (HEIGHT pass) (\<lambda>w h. Some h);
                      r = length (rtargets st);
                      rt = new_WebGLRenderTarget (offsetWidth cv / pixelRatio st)
                             (offsetHeight cv / pixelRatio st) textureType;
                      tg = \<lparr>t_name = targetName, t_targets = (r, Suc r),
                            t_getWidth = getWidth, t_getHeight = getHeight\<rparr>
                  in (Inr \<lparr>scene = pl, target = Some tg\<rparr>,
                      st\<lparr>rtargets := rtargets st @ [rt, rt],
                         uniforms := (uniforms st)(targetName \<mapsto>
                           \<lparr>u_type = ''t'', u_value = UTex (TargetTexture r)\<rparr>)\<rparr>))
               else (Inr \<lparr>scene = pl, target = None\<rparr>, st)))"

text \<open>The first loop of loadShader: both textures of every old target are disposed.\<close>

fun dispose_targets :: "render_pass list \<Rightarrow> texture list" where
  "dispose_targets [] = []"
| "dispose_targets (p # ps) =
     (case target p of
        None \<Rightarrow> dispose_targets ps
      | Some t \<Rightarrow> TargetTexture (fst (t_targets t)) # TargetTexture (snd (t_targets t))
                  # dispose_targets ps)"

text \<open>The callback of \<^verbatim>\<open>passes.map\<close>, run over the specs in order; an exception
  ends the loop and no array is returned.\<close>

fun create_passes :: "runtime \<Rightarrow> pass_spec list \<Rightarrow> veda \<Rightarrow> (js_error + render_pass list) \<times> veda" where
  "create_passes js [] st = (Inr [], st)"
| "create_passes js (p # ps) st =
     (if \<not> truthy (fs p) \<and> \<not> truthy (vs p) then (Inl InvalidShaderError, st)
      else
        (case createRenderPass js p st of
           (Inl e, st') \<Rightarrow> (Inl e, st')
         | (Inr rp, st') \<Rightarrow>
             (case create_passes js ps st' of
                (Inl e, st'') \<Rightarrow> (Inl e, st'')
              | (Inr rps, st'') \<Rightarrow> (Inr (rp # rps), st''))))"

definition loadShader :: "runtime \<Rightarrow> shader \<Rightarrow> veda \<Rightarrow> outcome" where
  "loadShader js sh st =
     (let specs = (case sh of Single p \<Rightarrow> [p] | Multi ps \<Rightarrow> ps);
          st1 = st\<lparr>disposed := disposed st @ dispose_targets (passes st)\<rparr>
      in (case create_passes js specs st1 of
            (Inl e, st2) \<Rightarrow> (Some e, st2)
          | (Inr rps, st2) \<Rightarrow> set_value ''FRAMEINDEX'' (UNum 0) (st2\<lparr>passes := rps\<rparr>)))"

definition loadFragmentShader :: "runtime \<Rightarrow> string \<Rightarrow> veda \<Rightarrow> outcome" where
  "loadFragmentShader js src st =
     loadShader js
       (Multi [\<lparr>TARGET = None, vs = None, fs = Some src, FLOAT = None, WIDTH = None, HEIGHT = None\<rparr>]) st"

definition loadVertexShader :: "runtime \<Rightarrow> string \<Rightarrow> veda \<Rightarrow> outcome" where
  "loadVertexShader js src st =
     loadShader js
       (Multi [\<lparr>TARGET = None, vs = Some src, fs = None, FLOAT = None, WIDTH = None, HEIGHT = None\<rparr>]) st"

text \<open>
  unloadTexture: \<^verbatim>\<open>texture.value.dispose()\<close> needs the entry and a value with a
  dispose method, which of the modelled values only a texture has. The predicate
  \<open>isVideo\<close> is the package is-video, a parameter; the GIF and sound loaders keep no
  state that is modelled.
\<close>

definition unloadTexture :: "(string \<Rightarrow> bool) \<Rightarrow> string \<Rightarrow> string \<Rightarrow> bool \<Rightarrow> veda \<Rightarrow> outcome" where
  "unloadTexture isVideo name textureUrl remove st =
     (case uniforms st name of
        None \<Rightarrow> (Some TypeError, st)
      | Some u \<Rightarrow>
          (case u_value u of
             UTex tx \<Rightarrow>
               (let st1 = st\<lparr>disposed := disposed st @ [tx]\<rparr>
                in if remove \<and> isVideo textureUrl
                   then (case unload textureUrl (videoLoader st1) of
                           (r, vl) \<Rightarrow> (r, st1\<lparr>videoLoader := vl\<rparr>))
                   else (None, st1))
           | _ \<Rightarrow> (Some TypeError, st)))"

text \<open>
  resize: the two assignments \<^verbatim>\<open>resolution.value.x = ...\<close> and \<^verbatim>\<open>.y = ...\<close>
  update a vector, throw on undefined and (module code is strict) on a number, and
  leave a texture object as far as it is modelled.
\<close>

definition resize_pass :: "number \<Rightarrow> number \<Rightarrow> render_pass \<Rightarrow> veda \<Rightarrow> veda" where
  "resize_pass bw bh p st =
     (case target p of
        None \<Rightarrow> st
      | Some t \<Rightarrow> setSize (snd (t_targets t)) bw bh (setSize (fst (t_targets t)) bw bh st))"

definition resize :: "number \<Rightarrow> number \<Rightarrow> veda \<Rightarrow> outcome" where
  "resize width height st =
     (case renderer st of
        None \<Rightarrow> (None, st)
      | Some r \<Rightarrow>
          (let bufferWidth = width / pixelRatio st;
               bufferHeight = height / pixelRatio st;
               st1 = fold (resize_pass bufferWidth bufferHeight) (passes st) st;
               st2 = setSize (snd (targets st1)) bufferWidth bufferHeight
                       (setSize (fst (targets st1)) bufferWidth bufferHeight st1)
           in (case uniforms st2 ''resolution'' of
                 None \<Rightarrow> (Some TypeError, st2)
               | Some u \<Rightarrow>
                   (case u_value u of
                      UVec2 x y \<Rightarrow> set_value ''resolution'' (UVec2 bufferWidth bufferHeight) st2
                    | UVec3 x y z \<Rightarrow> set_value ''resolution'' (UVec3 bufferWidth bufferHeight z) st2
                    | UTex tx \<Rightarrow> (None, st2)
                    | _ \<Rightarrow> (Some TypeError, st2)))))"

text \<open>The body of the callback of \<^verbatim>\<open>this.passes.forEach\<close> in render, for the pass
  at index \<open>i\<close>.\<close>

definition render_pass_at :: "canvas_element \<Rightarrow> nat \<Rightarrow> veda \<Rightarrow> outcome" where
  "render_pass_at cv i st0 =
     and_then (set_value ''PASSINDEX'' (UNum (of_nat i)) st0) (\<lambda>st.
       (let pass = passes st ! i in
        (case target pass of
           Some t \<Rightarrow>
             (let w = offsetWidth cv / pixelRatio st;
                  h = offsetHeight cv / pixelRatio st
              in (case t_getWidth t w h of
                    None \<Rightarrow> (Some SizeExpressionError, st)
                  | Some gw \<Rightarrow>
                      (case t_getHeight t w h of
                         None \<Rightarrow> (Some SizeExpressionError, st)
                       | Some gh \<Rightarrow>
                           (let back = snd (t_targets t);
                                st1 = setSize back gw gh st;
                                st2 = render_to (scene pass) (Some back) True st1;
                                t' = t\<lparr>t_targets := swap_targets (t_targets t)\<rparr>;
                                st3 = st2\<lparr>passes := (passes st2)[i := pass\<lparr>target := Some t'\<rparr>]\<rparr>
                            in set_value (t_name t) (UTex (TargetTexture (fst (t_targets t')))) st3))))
         | None \<Rightarrow> (None, render_to (scene pass) None False st))))"

text \<open>forEach over the indices of the pass list: an exception ends the loop.\<close>

fun for_each :: "(nat \<Rightarrow> veda \<Rightarrow> outcome) \<Rightarrow> nat list \<Rightarrow> veda \<Rightarrow> outcome" where
  "for_each f [] st = (None, st)"
| "for_each f (i # is) st =
     (case f i st of
        (None, st') \<Rightarrow> for_each f is st'
      | (Some e, st') \<Rightarrow> (Some e, st'))"

text \<open>What render does after the loop: the last pass is read (a TypeError on an empty
  pass list), drawn onto the canvas if it has a target, drawn into the back buffer of the
  backbuffer pair, and the frame index is incremented.\<close>

definition render_last :: "veda \<Rightarrow> outcome" where
  "render_last st =
     (if passes st = [] then (Some TypeError, st)
      else
          (let lastPass = last (passes st);
               st1 = (if target lastPass \<noteq> None
                      then render_to (scene lastPass) None False st else st);
               st2 = render_to (scene lastPass) (Some (snd (targets st1))) True st1
           in (case uniforms st2 ''FRAMEINDEX'' of
                 None \<Rightarrow> (Some TypeError, st2)
               | Some u \<Rightarrow> set_value ''FRAMEINDEX'' (js_increment (u_value u)) st2)))"

text \<open>render. The \<^verbatim>\<open>update\<close> calls of the GIF, audio and gamepad loaders run code
  outside the modelled files and are left out; of the audio loader the flag and the volume
  it reports are kept.\<close>

definition render :: "env \<Rightarrow> veda \<Rightarrow> outcome" where
  "render e st =
     (case canvas st of
        None \<Rightarrow> (None, st)
      | Some cv \<Rightarrow>
          (case renderer st of
             None \<Rightarrow> (None, st)
           | Some r \<Rightarrow>
               and_then (set_value ''time'' (UNum ((now e - start st) / 1000)) st) (\<lambda>st1.
               and_then (let st2 = st1\<lparr>targets := swap_targets (targets st1)\<rparr>
                         in set_value ''backbuffer'' (UTex (TargetTexture (fst (targets st2)))) st2) (\<lambda>st3.
               and_then (if audioEnabled st3 then set_value ''volume'' (UNum (volume e)) st3
                         else (None, st3)) (\<lambda>st4.
               and_then (for_each (render_pass_at cv) [0..<length (passes st4)] st4)
                 render_last)))))"

definition animate :: "env \<Rightarrow> veda \<Rightarrow> outcome" where
  "animate e st =
     (let st1 = st\<lparr>frame := frame st + 1\<rparr>
      in if \<not> isPlaying st1 then (None, st1)
         else (let st2 = st1\<lparr>rafPending := rafPending st1 + 1\<rparr>
               in if js_rem (frame st2) (frameskip st2) = Some 0 then render e st2
                  else (None, st2)))"

definition play :: "env \<Rightarrow> veda \<Rightarrow> outcome" where
  "play e st = animate e (st\<lparr>isPlaying := True\<rparr>)"

text \<open>setCanvas; the mouse listeners it installs are not modelled.\<close>

definition setCanvas :: "env \<Rightarrow> canvas_element \<Rightarrow> veda \<Rightarrow> outcome" where
  "setCanvas e cv st =
     (let st1 = st\<lparr>canvas := Some cv, renderer := Some \<lparr>r_pixelRatio = 1 / pixelRatio st\<rparr>\<rparr>
      in and_then (resize (offsetWidth cv) (offsetHeight cv) st1) (\<lambda>st2.
           animate e (st2\<lparr>frame := 0\<rparr>)))"

text \<open>
  A run of animation ticks: each tick is one call of animate by the browser, with that
  tick's readings. While the instance is playing every tick hands animate to
  requestAnimationFrame before it renders, so an exception thrown by render is reported
  by the browser and does not stop the next tick.
\<close>

fun ticks :: "env list \<Rightarrow> veda \<Rightarrow> veda" where
  "ticks [] st = st"
| "ticks (e # es) st = ticks es (snd (animate e st))"

section \<open>Notions used in the statements\<close>

text \<open>The specs of a load request, as the first lines of loadShader read them.\<close>

definition specs_of :: "shader \<Rightarrow> pass_spec list" where
  "specs_of sh = (case sh of Single p \<Rightarrow> [p] | Multi ps \<Rightarrow> ps)"

text \<open>A spec passes the check of loadShader when one of its two sources is truthy.\<close>

definition has_source :: "pass_spec \<Rightarrow> bool" where
  "has_source p = (truthy (fs p) \<or> truthy (vs p))"

text \<open>A pass after the swap of its pair, if it has one.\<close>

definition swap_pass :: "render_pass \<Rightarrow> render_pass" where
  "swap_pass p =
     (case target p of
        None \<Rightarrow> p
      | Some t \<Rightarrow> p\<lparr>target := Some (t\<lparr>t_targets := swap_targets (t_targets t)\<rparr>)\<rparr>)"

text \<open>The store indices of the buffer pairs of a pass list, in order.\<close>

fun pass_refs :: "render_pass list \<Rightarrow> nat list" where
  "pass_refs [] = []"
| "pass_refs (p # ps) =
     (case target p of
        None \<Rightarrow> pass_refs ps
      | Some t \<Rightarrow> fst (t_targets t) # snd (t_targets t) # pass_refs ps)"

text \<open>The two typed arrays of createPlane can be allocated from the current vertex count.\<close>

definition vertex_count_ok :: "runtime \<Rightarrow> veda \<Rightarrow> bool" where
  "vertex_count_ok js st =
     (case uniforms st ''vertexCount'' of
        None \<Rightarrow> False
      | Some u \<Rightarrow> typed_array_ok js (js_times js (u_value u) 3) \<and> typed_array_ok js (u_value u))"

text \<open>The target name each spec declares, if any, as createRenderPass reads it.\<close>

definition declared_names :: "pass_spec list \<Rightarrow> string option list" where
  "declared_names specs = map (\<lambda>p. if truthy (TARGET p) then TARGET p else None) specs"

text \<open>
  What a build leaves behind for a list of specs, in closed form: two render targets of
  the canvas size over the pixel ratio for every spec that declares a target, and under
  each declared name a uniform holding the texture of the first of the two, the store
  index counted from \<open>r\<close>.
\<close>

definition declared_targets :: "canvas_element \<Rightarrow> number \<Rightarrow> pass_spec list \<Rightarrow> webgl_render_target list" where
  "declared_targets cv pr specs =
     concat (map (\<lambda>p. if truthy (TARGET p)
                       then replicate 2 (new_WebGLRenderTarget (offsetWidth cv / pr)
                              (offsetHeight cv / pr) (FLOAT p = Some True))
                       else []) specs)"

fun declared_uniforms :: "nat \<Rightarrow> pass_spec list \<Rightarrow> uniforms \<Rightarrow> uniforms" where
  "declared_uniforms r [] us = us"
| "declared_uniforms r (p # ps) us =
     (if truthy (TARGET p)
      then declared_uniforms (r + 2) ps
             (us((case TARGET p of Some n \<Rightarrow> n | None \<Rightarrow> []) \<mapsto>
                   \<lparr>u_type = ''t'', u_value = UTex (TargetTexture r)\<rparr>))
      else declared_uniforms r ps us)"

text \<open>
  The draw calls of one frame, in closed form: every pass once, into its back buffer
  with a forced clear or onto the canvas; the last pass once more onto the canvas when it
  has a target; and the last pass into the back buffer of the backbuffer pair, which is
  the front buffer of the state the frame starts from.
\<close>

definition pass_draw :: "render_pass \<Rightarrow> draw_call" where
  "pass_draw p =
     \<lparr>d_scene = scene p, d_dest = map_option (snd \<circ> t_targets) (target p),
      d_forceClear = (target p \<noteq> None)\<rparr>"

definition frame_draws :: "veda \<Rightarrow> draw_call list" where
  "frame_draws st =
     map pass_draw (passes st)
     @ (if target (last (passes st)) \<noteq> None
        then [\<lparr>d_scene = scene (last (passes st)), d_dest = None, d_forceClear = False\<rparr>]
        else [])
     @ [\<lparr>d_scene = scene (last (passes st)), d_dest = Some (fst (targets st)),
         d_forceClear = True\<rparr>]"

text \<open>The number of multiples of the stride among the tick counters that the next
  \<open>T\<close> ticks go through, \<open>frame + 1\<close> to \<open>frame + T\<close>.\<close>

definition renders_due :: "veda \<Rightarrow> nat \<Rightarrow> nat" where
  "renders_due st T = nat ((frame st + int T) div frameskip st - frame st div frameskip st)"

text \<open>The size functions of every pass return, at the current canvas size.\<close>

definition sizes_resolve :: "veda \<Rightarrow> bool" where
  "sizes_resolve st =
     (case canvas st of
        None \<Rightarrow> False
      | Some cv \<Rightarrow>
          (\<forall>p\<in>set (passes st). \<forall>t. target p = Some t \<longrightarrow>
             t_getWidth t (offsetWidth cv / pixelRatio st) (offsetHeight cv / pixelRatio st) \<noteq> None
             \<and> t_getHeight t (offsetWidth cv / pixelRatio st) (offsetHeight cv / pixelRatio st) \<noteq> None))"

text \<open>
  A state in which a frame runs to its end and counts: the canvas and the renderer are
  set, the pixel ratio is not zero (so that the quotients are numbers), there is a pass,
  the uniforms that render writes exist, the size functions return, and no pass writes a
  target named like a uniform that render itself maintains.
\<close>

definition frame_ready :: "veda \<Rightarrow> bool" where
  "frame_ready st =
     (canvas st \<noteq> None \<and> renderer st \<noteq> None \<and> pixelRatio st \<noteq> 0 \<and> passes st \<noteq> []
      \<and> ''time'' \<in> dom (uniforms st) \<and> ''backbuffer'' \<in> dom (uniforms st)
      \<and> ''PASSINDEX'' \<in> dom (uniforms st) \<and> ''FRAMEINDEX'' \<in> dom (uniforms st)
      \<and> (audioEnabled st \<longrightarrow> ''volume'' \<in> dom (uniforms st))
      \<and> sizes_resolve st
      \<and> (\<forall>p\<in>set (passes st). \<forall>t. target p = Some t \<longrightarrow>
            t_name t \<in> dom (uniforms st)
            \<and> t_name t \<notin> set [''FRAMEINDEX'', ''time'', ''backbuffer'', ''volume'']))"

section \<open>A running example\<close>

text \<open>A runtime that knows three size expressions (the third throws when it is
  called), multiplies exactly and allocates arrays of fewer than a million elements, which
  is right for the numbers used here; a canvas of 800 by 600, an instance with frame skip
  2, and the two-pass pipeline of the specification's scenario: the first pass writes the
  target A at half width, the second draws onto the display.\<close>

definition ex_Function :: "string \<Rightarrow> size_fn option" where
  "ex_Function s = (if s = ''$WIDTH/2'' then Some (\<lambda>w h. Some (w / 2))
                    else if s = ''-5'' then Some (\<lambda>w h. Some (- 5))
                    else if s = ''nope'' then Some (\<lambda>w h. None)
                    else None)"

definition ex_runtime :: runtime where
  "ex_runtime = \<lparr>js_Function = ex_Function, js_mul = (\<lambda>a b. a * b),
                  js_Float32Array = (\<lambda>n. - 1 < n \<and> n < 1000000)\<rparr>"

definition ex_env :: env where
  "ex_env = \<lparr>now = 1000, volume = 0\<rparr>"

definition ex_canvas :: canvas_element where
  "ex_canvas = \<lparr>offsetWidth = 800, offsetHeight = 600\<rparr>"

definition ex_options :: veda_options where
  "ex_options = \<lparr>o_pixelRatio = None, o_frameskip = Some 2, o_vertexMode = None,
                  o_vertexCount = None\<rparr>"

definition ex_specA :: pass_spec where
  "ex_specA = \<lparr>TARGET = Some ''A'', vs = None, fs = Some ''f1'', FLOAT = None,
               WIDTH = Some ''$WIDTH/2'', HEIGHT = None\<rparr>"

definition ex_specD :: pass_spec where
  "ex_specD = \<lparr>TARGET = None, vs = None, fs = Some ''f2'', FLOAT = None, WIDTH = None,
               HEIGHT = None\<rparr>"

definition ex_new :: veda where
  "ex_new = new_Veda ex_options 0"

definition ex_ready :: veda where
  "ex_ready = snd (setCanvas ex_env ex_canvas ex_new)"

definition ex_loaded :: veda where
  "ex_loaded = snd (loadShader ex_runtime (Multi [ex_specA, ex_specD]) ex_ready)"

definition ex_playing :: veda where
  "ex_playing = snd (play ex_env ex_loaded)"

text \<open>A spec with no source, a spec with a negative size expression, and a canvas that
  has no extent.\<close>

definition ex_specNone :: pass_spec where
  "ex_specNone = \<lparr>TARGET = None, vs = None, fs = None, FLOAT = None, WIDTH = None, HEIGHT = None\<rparr>"

definition ex_zero_canvas :: veda where
  "ex_zero_canvas = snd (setCanvas ex_env \<lparr>offsetWidth = 0, offsetHeight = 0\<rparr> ex_new)"

definition ex_specNeg :: pass_spec where
  "ex_specNeg = \<lparr>TARGET = Some ''B'', vs = None, fs = Some ''f3'', FLOAT = None,
                 WIDTH = Some ''-5'', HEIGHT = None\<rparr>"

text \<open>A spec whose width expression throws when it is called.\<close>

definition ex_specThrow :: pass_spec where
  "ex_specThrow = \<lparr>TARGET = Some ''C'', vs = None, fs = Some ''f4'', FLOAT = None,
                   WIDTH = Some ''nope'', HEIGHT = None\<rparr>"

text \<open>The readings of two later ticks.\<close>

definition ex_env2 :: env where
  "ex_env2 = \<lparr>now = 2000, volume = 0\<rparr>"

definition ex_env3 :: env where
  "ex_env3 = \<lparr>now = 3000, volume = 0\<rparr>"

lemmas ex_defs = ex_env2_def ex_env3_def ex_specNone_def ex_zero_canvas_def ex_specNeg_def ex_env_def ex_canvas_def ex_options_def ex_specA_def ex_specD_def ex_new_def
  ex_ready_def ex_loaded_def ex_playing_def ex_runtime_def ex_Function_def ex_specThrow_def

lemmas model_defs = setCanvas_def new_Veda_def initial_uniforms_def new_VideoLoader_def resize_def
  animate_def and_then_def set_value_def setSize_def new_WebGLRenderTarget_def loadShader_def
  createRenderPass_def createPlane_def truthy_def size_function_def play_def render_def
  render_pass_at_def render_last_def render_to_def swap_targets_def js_rem_def js_increment_def
  Let_def resize_pass_def js_times_def typed_array_ok_def

section \<open>Basic facts\<close>

lemma set_value_None:
  "set_value k v st = (None, st') \<Longrightarrow>
     (\<exists>u. uniforms st k = Some u \<and> st' = st\<lparr>uniforms := (uniforms st)(k \<mapsto> u\<lparr>u_value := v\<rparr>)\<rparr>)"
  by (auto simp: set_value_def split: option.splits)

lemma set_value_ok:
  "uniforms st k = Some u \<Longrightarrow>
     set_value k v st = (None, st\<lparr>uniforms := (uniforms st)(k \<mapsto> u\<lparr>u_value := v\<rparr>)\<rparr>)"
  by (simp add: set_value_def)

lemma and_then_None:
  "and_then r f = (None, st') \<Longrightarrow> \<exists>st1. r = (None, st1) \<and> f st1 = (None, st')"
  by (cases r) (auto simp: and_then_def split: option.splits)

lemma and_then_ok: "r = (None, st1) \<Longrightarrow> and_then r f = f st1"
  by (simp add: and_then_def)

text \<open>One step of the loop, as an update of four fields.\<close>

lemma render_pass_at_shape:
  assumes "render_pass_at cv i st = (None, st')"
  shows "\<exists>d rs us. st' = st\<lparr>draws := draws st @ [d], rtargets := rs,
            passes := (passes st)[i := swap_pass (passes st ! i)], uniforms := us\<rparr>
          \<and> length rs = length (rtargets st) \<and> dom us = dom (uniforms st)
          \<and> (\<forall>k. k \<noteq> ''PASSINDEX'' \<and> Some k \<noteq> map_option t_name (target (passes st ! i))
                 \<longrightarrow> us k = uniforms st k)
          \<and> (\<forall>r. Some r \<noteq> map_option (snd \<circ> t_targets) (target (passes st ! i))
                 \<longrightarrow> rs ! r = rtargets st ! r)"
proof (cases "target (passes st ! i)")
  case None
  with assms show ?thesis
    apply (clarsimp simp: render_pass_at_def Let_def swap_pass_def render_to_def
       dest!: and_then_None set_value_None)
    apply (rule exI, rule exI, rule exI, rule conjI, rule veda.equality)
    apply (auto split: if_splits)
    done
next
  case (Some t)
  with assms show ?thesis
    apply (clarsimp simp: render_pass_at_def Let_def swap_pass_def render_to_def setSize_def
       dest!: and_then_None set_value_None split: option.splits)
    apply (rule exI, rule exI, rule exI, rule conjI, rule veda.equality)
    apply (auto split: if_splits)
    done
qed

lemma for_each_append:
  "for_each f (xs @ ys) st = and_then (for_each f xs st) (for_each f ys)"
  by (induction xs arbitrary: st) (auto simp: and_then_def split: prod.splits option.splits)

lemma swap_pass_twice: "swap_pass (swap_pass p) = p"
  by (cases "target p") (auto simp: swap_pass_def swap_targets_def)

lemma nth_list_update_any:
  "(xs[i := x]) ! j = (if i = j \<and> i < length xs then x else xs ! j)"
  by (cases "i < length xs") (auto simp: nth_list_update list_update_beyond)

text \<open>The whole loop over a list of distinct indices.\<close>

lemma for_each_shape:
  assumes "for_each (render_pass_at cv) js st = (None, st')" and "distinct js"
  shows "\<exists>ds rs us ps. st' = st\<lparr>draws := draws st @ ds, rtargets := rs, passes := ps, uniforms := us\<rparr>
          \<and> length rs = length (rtargets st) \<and> dom us = dom (uniforms st)
          \<and> length ds = length js \<and> length ps = length (passes st)
          \<and> (\<forall>j. ps ! j = (if j \<in> set js \<and> j < length (passes st)
                              then swap_pass (passes st ! j) else passes st ! j))"
  using assms
proof (induction js arbitrary: st)
  case Nil
  then have "st' = st" by simp
  then show ?case
    by (intro exI[of _ "[]"] exI[of _ "rtargets st"] exI[of _ "uniforms st"] exI[of _ "passes st"]) simp
next
  case (Cons i js)
  from Cons.prems(1) obtain s1 where
    s1: "render_pass_at cv i st = (None, s1)" and
    rest: "for_each (render_pass_at cv) js s1 = (None, st')"
    by (auto split: prod.splits option.splits)
  from Cons.prems(2) have dj: "distinct js" and ni: "i \<notin> set js" by auto
  from render_pass_at_shape[OF s1] obtain d rs us where
    e1: "s1 = st\<lparr>draws := draws st @ [d], rtargets := rs,
            passes := (passes st)[i := swap_pass (passes st ! i)], uniforms := us\<rparr>"
    and l1: "length rs = length (rtargets st)" and d1: "dom us = dom (uniforms st)"
    by (elim exE conjE) (rule that)
  from Cons.IH[OF rest dj] obtain ds rs' us' ps' where
    e2: "st' = s1\<lparr>draws := draws s1 @ ds, rtargets := rs', passes := ps', uniforms := us'\<rparr>"
    and l2: "length rs' = length (rtargets s1)" and d2: "dom us' = dom (uniforms s1)"
    and l3: "length ds = length js" and l4: "length ps' = length (passes s1)"
    and pw: "\<forall>j. ps' ! j = (if j \<in> set js \<and> j < length (passes s1)
                              then swap_pass (passes s1 ! j) else passes s1 ! j)"
    by (elim exE conjE) (rule that)
  have pw': "\<forall>j. ps' ! j = (if j \<in> set (i # js) \<and> j < length (passes st)
                              then swap_pass (passes st ! j) else passes st ! j)"
    using pw ni by (auto simp: e1 nth_list_update_any)
  have eq: "st' = st\<lparr>draws := draws st @ (d # ds), rtargets := rs', passes := ps', uniforms := us'\<rparr>"
    by (simp add: e2 e1)
  show ?case
    apply (intro exI[of _ "d # ds"] exI[of _ rs'] exI[of _ us'] exI[of _ ps'] conjI)
         apply (rule eq)
    using l1 l2 d1 d2 l3 l4 pw' apply (simp_all add: e1)
    done
qed


lemma render_to_shape:
  "\<exists>rs. render_to sc dest fc s =
          s\<lparr>draws := draws s @ [\<lparr>d_scene = sc, d_dest = dest, d_forceClear = fc\<rparr>], rtargets := rs\<rparr>
        \<and> length rs = length (rtargets s)
        \<and> (\<forall>r. Some r \<noteq> dest \<longrightarrow> rs ! r = rtargets s ! r)"
proof (cases dest)
  case None
  then show ?thesis
    by (intro exI[of _ "rtargets s"]) (simp add: render_to_def)
next
  case (Some r)
  then show ?thesis
    by (auto simp: render_to_def)
qed

lemma render_last_shape:
  assumes "render_last s = (None, s')"
  shows "passes s \<noteq> [] \<and> (\<exists>ds rs us. s' = s\<lparr>draws := draws s @ ds, rtargets := rs, uniforms := us\<rparr>
          \<and> length rs = length (rtargets s) \<and> dom us = dom (uniforms s))"
proof (cases "passes s")
  case Nil
  with assms show ?thesis by (simp add: render_last_def)
next
  case (Cons p ps)
  define lp where "lp = last (passes s)"
  define s1 where "s1 = (if target lp \<noteq> None then render_to (scene lp) None False s else s)"
  define s2 where "s2 = render_to (scene lp) (Some (snd (targets s1))) True s1"
  obtain dsa rsa where e1: "s1 = s\<lparr>draws := draws s @ dsa, rtargets := rsa\<rparr>"
    and l1: "length rsa = length (rtargets s)"
  proof (cases "target lp \<noteq> None")
    case True
    then show ?thesis
      by (intro that[where rsa = "rtargets s" and dsa = "[\<lparr>d_scene = scene lp, d_dest = None, d_forceClear = False\<rparr>]"])
         (simp_all add: s1_def render_to_def)
  next
    case False
    then show ?thesis by (intro that[where dsa = "[]" and rsa = "rtargets s"]) (simp_all add: s1_def)
  qed
  define rs2 where "rs2 = (rtargets s1)[snd (targets s1) :=
      (rtargets s1 ! snd (targets s1))\<lparr>rt_content := Some (length (draws s1))\<rparr>]"
  have e2: "s2 = s1\<lparr>draws := draws s1 @ [\<lparr>d_scene = scene lp, d_dest = Some (snd (targets s1)),
                d_forceClear = True\<rparr>], rtargets := rs2\<rparr>"
    by (simp add: s2_def render_to_def rs2_def)
  have l2: "length rs2 = length (rtargets s1)" by (simp add: rs2_def)
  have rl: "render_last s = (case uniforms s2 ''FRAMEINDEX'' of
                None \<Rightarrow> (Some TypeError, s2)
              | Some u \<Rightarrow> set_value ''FRAMEINDEX'' (js_increment (u_value u)) s2)"
    using Cons unfolding render_last_def Let_def s2_def s1_def lp_def by simp
  from assms obtain u where
    u: "uniforms s2 ''FRAMEINDEX'' = Some u" and
    sv: "set_value ''FRAMEINDEX'' (js_increment (u_value u)) s2 = (None, s')"
    unfolding rl by (cases "uniforms s2 ''FRAMEINDEX''") simp_all
  from set_value_None[OF sv] u have
    e3: "s' = s2\<lparr>uniforms := (uniforms s2)(''FRAMEINDEX'' \<mapsto> u\<lparr>u_value := js_increment (u_value u)\<rparr>)\<rparr>"
    by auto
  have eq: "s' = s\<lparr>draws := draws s @ (dsa @ [\<lparr>d_scene = scene lp, d_dest = Some (snd (targets s1)),
                d_forceClear = True\<rparr>]), rtargets := rs2,
              uniforms := (uniforms s)(''FRAMEINDEX'' \<mapsto> u\<lparr>u_value := js_increment (u_value u)\<rparr>)\<rparr>"
    by (simp add: e3 e2) (simp add: e1)
  have "dom ((uniforms s)(''FRAMEINDEX'' \<mapsto> u\<lparr>u_value := js_increment (u_value u)\<rparr>)) = dom (uniforms s)"
    using u by (auto simp: e2 e1)
  moreover have "length rs2 = length (rtargets s)" using l2 l1 by (simp add: e1)
  moreover have "passes s \<noteq> []" using Cons by simp
  ultimately show ?thesis using eq by blast
qed

lemma render_shape:
  assumes "render e st = (None, st')" and "canvas st = Some cv" and "renderer st = Some r"
  shows "passes st \<noteq> [] \<and> (\<exists>ds rs us. st' = st\<lparr>targets := swap_targets (targets st),
            draws := draws st @ ds, rtargets := rs, passes := map swap_pass (passes st),
            uniforms := us\<rparr>
          \<and> length rs = length (rtargets st) \<and> dom us = dom (uniforms st))"
proof -
  from assms obtain s1 s3 s4 s5 where
    t: "set_value ''time'' (UNum ((now e - start st) / 1000)) st = (None, s1)" and
    b: "set_value ''backbuffer'' (UTex (TargetTexture (snd (targets s1))))
          (s1\<lparr>targets := swap_targets (targets s1)\<rparr>) = (None, s3)" and
    a: "(if audioEnabled s3 then set_value ''volume'' (UNum (volume e)) s3 else (None, s3)) = (None, s4)" and
    l: "for_each (render_pass_at cv) [0..<length (passes s4)] s4 = (None, s5)" and
    f: "render_last s5 = (None, st')"
    by (auto simp: render_def Let_def swap_targets_def dest!: and_then_None)
  from set_value_None[OF t] obtain u1 where
    e1: "s1 = st\<lparr>uniforms := (uniforms st)(''time'' \<mapsto> u1)\<rparr>" and k1: "''time'' \<in> dom (uniforms st)"
    by (elim exE conjE) (auto intro: that)
  from set_value_None[OF b] obtain u3 where
    e3: "s3 = s1\<lparr>targets := swap_targets (targets s1), uniforms := (uniforms s1)(''backbuffer'' \<mapsto> u3)\<rparr>"
    and k3: "''backbuffer'' \<in> dom (uniforms s1)"
    by (elim exE conjE) (auto intro: that)
  from a obtain us4 where
    e4: "s4 = s3\<lparr>uniforms := us4\<rparr>" and d4: "dom us4 = dom (uniforms s3)"
  proof (cases "audioEnabled s3")
    case True
    with a set_value_None[of "''volume''" _ s3 s4] obtain u where
      "uniforms s3 ''volume'' = Some u" "s4 = s3\<lparr>uniforms := (uniforms s3)(''volume'' \<mapsto> u\<lparr>u_value := UNum (volume e)\<rparr>)\<rparr>"
      by auto
    then show ?thesis by (intro that[of "(uniforms s3)(''volume'' \<mapsto> u\<lparr>u_value := UNum (volume e)\<rparr>)"]) auto
  next
    case False
    with a show ?thesis by (intro that[of "uniforms s3"]) auto
  qed
  from for_each_shape[OF l distinct_upt] obtain ds rs us ps where
    e5: "s5 = s4\<lparr>draws := draws s4 @ ds, rtargets := rs, passes := ps, uniforms := us\<rparr>"
    and l5: "length rs = length (rtargets s4)" and d5: "dom us = dom (uniforms s4)"
    and lp: "length ps = length (passes s4)"
    and pw: "\<forall>j. ps ! j = (if j \<in> set [0..<length (passes s4)] \<and> j < length (passes s4)
                              then swap_pass (passes s4 ! j) else passes s4 ! j)"
    by (elim exE conjE) (auto intro: that)
  have ps: "ps = map swap_pass (passes s4)"
    using lp pw by (intro nth_equalityI) auto
  from render_last_shape[OF f] obtain ds' rs' us' where
    ne: "passes s5 \<noteq> []" and
    e6: "st' = s5\<lparr>draws := draws s5 @ ds', rtargets := rs', uniforms := us'\<rparr>"
    and l6: "length rs' = length (rtargets s5)" and d6: "dom us' = dom (uniforms s5)"
    by (elim exE conjE) (auto intro: that)
  have p4: "passes s4 = passes st" by (simp add: e4 e3 e1)
  have eq: "st' = st\<lparr>targets := swap_targets (targets st),
            draws := draws st @ (ds @ ds'), rtargets := rs', passes := map swap_pass (passes st),
            uniforms := us'\<rparr>"
    by (simp add: e6 e5 ps e4 e3 e1)
  have "dom us' = dom (uniforms st)"
    using d6 d5 d4 k1 k3 by (auto simp: e5 e4 e3 e1)
  moreover have "length rs' = length (rtargets st)"
    using l6 l5 by (simp add: e5 e4 e3 e1)
  moreover have "passes st \<noteq> []" using ne by (simp add: e5 ps p4)
  ultimately show ?thesis using eq by blast
qed


section \<open>Frames and ticks\<close>

text \<open>What the loop over the passes leaves alone, what it draws, and when it runs to its
  end.\<close>

lemma for_each_frame:
  assumes "for_each (render_pass_at cv) js st = (None, st')" and "distinct js"
  shows "(\<forall>k. k \<noteq> ''PASSINDEX''
              \<and> (\<forall>j\<in>set js. Some k \<noteq> map_option t_name (target (passes st ! j)))
            \<longrightarrow> uniforms st' k = uniforms st k)
       \<and> (\<forall>r. (\<forall>j\<in>set js. Some r \<noteq> map_option (snd \<circ> t_targets) (target (passes st ! j)))
            \<longrightarrow> rtargets st' ! r = rtargets st ! r)"
  using assms
proof (induction js arbitrary: st)
  case Nil
  then show ?case by simp
next
  case (Cons i js)
  from Cons.prems(1) obtain s1 where
    s1: "render_pass_at cv i st = (None, s1)" and
    rest: "for_each (render_pass_at cv) js s1 = (None, st')"
    by (auto split: prod.splits option.splits)
  from Cons.prems(2) have dj: "distinct js" and ni: "i \<notin> set js" by auto
  from render_pass_at_shape[OF s1] obtain d rs us where
    e1: "s1 = st\<lparr>draws := draws st @ [d], rtargets := rs,
            passes := (passes st)[i := swap_pass (passes st ! i)], uniforms := us\<rparr>"
    and u1: "\<forall>k. k \<noteq> ''PASSINDEX'' \<and> Some k \<noteq> map_option t_name (target (passes st ! i))
                 \<longrightarrow> us k = uniforms st k"
    and r1: "\<forall>r. Some r \<noteq> map_option (snd \<circ> t_targets) (target (passes st ! i))
                 \<longrightarrow> rs ! r = rtargets st ! r"
    by (elim exE conjE) (rule that)
  have same: "\<And>j. j \<in> set js \<Longrightarrow> passes s1 ! j = passes st ! j"
    using ni by (auto simp: e1 nth_list_update_any)
  from Cons.IH[OF rest dj] have
    u2: "\<forall>k. k \<noteq> ''PASSINDEX''
              \<and> (\<forall>j\<in>set js. Some k \<noteq> map_option t_name (target (passes s1 ! j)))
            \<longrightarrow> uniforms st' k = uniforms s1 k"
    by (rule conjunct1)
  from Cons.IH[OF rest dj] have
    r2: "\<forall>r. (\<forall>j\<in>set js. Some r \<noteq> map_option (snd \<circ> t_targets) (target (passes s1 ! j)))
            \<longrightarrow> rtargets st' ! r = rtargets s1 ! r"
    by (rule conjunct2)
  have us: "uniforms s1 = us" and rs: "rtargets s1 = rs" by (simp_all add: e1)
  show ?case
  proof (intro conjI allI impI)
    fix k
    assume k: "k \<noteq> ''PASSINDEX''
              \<and> (\<forall>j\<in>set (i # js). Some k \<noteq> map_option t_name (target (passes st ! j)))"
    then have "uniforms st' k = uniforms s1 k" using u2 same by simp
    also have "\<dots> = uniforms st k" using u1 k by (simp add: us)
    finally show "uniforms st' k = uniforms st k" .
  next
    fix r
    assume r: "\<forall>j\<in>set (i # js). Some r \<noteq> map_option (snd \<circ> t_targets) (target (passes st ! j))"
    then have "rtargets st' ! r = rtargets s1 ! r" using r2 same by simp
    also have "\<dots> = rtargets st ! r" using r1 r by (simp add: rs)
    finally show "rtargets st' ! r = rtargets st ! r" .
  qed
qed

lemma render_pass_at_draw:
  assumes "render_pass_at cv i st = (None, st')"
  shows "draws st' = draws st @ [pass_draw (passes st ! i)]"
  using assms
  by (cases "target (passes st ! i)")
     (auto simp: render_pass_at_def Let_def setSize_def render_to_def pass_draw_def
        dest!: and_then_None set_value_None split: option.splits)

lemma for_each_draws:
  assumes "for_each (render_pass_at cv) js st = (None, st')" and "distinct js"
  shows "draws st' = draws st @ map (\<lambda>j. pass_draw (passes st ! j)) js"
  using assms
proof (induction js arbitrary: st)
  case Nil
  then show ?case by simp
next
  case (Cons i js)
  from Cons.prems(1) obtain s1 where
    s1: "render_pass_at cv i st = (None, s1)" and
    rest: "for_each (render_pass_at cv) js s1 = (None, st')"
    by (auto split: prod.splits option.splits)
  from Cons.prems(2) have dj: "distinct js" and ni: "i \<notin> set js" by auto
  from render_pass_at_shape[OF s1] obtain d rs us where
    e1: "s1 = st\<lparr>draws := draws st @ [d], rtargets := rs,
            passes := (passes st)[i := swap_pass (passes st ! i)], uniforms := us\<rparr>"
    by (elim exE conjE) (rule that)
  have same: "\<And>j. j \<in> set js \<Longrightarrow> passes s1 ! j = passes st ! j"
    using ni by (auto simp: e1 nth_list_update_any)
  have "draws st' = draws s1 @ map (\<lambda>j. pass_draw (passes s1 ! j)) js"
    by (rule Cons.IH[OF rest dj])
  also have "map (\<lambda>j. pass_draw (passes s1 ! j)) js = map (\<lambda>j. pass_draw (passes st ! j)) js"
    using same by simp
  finally show ?case by (simp add: render_pass_at_draw[OF s1])
qed

lemma for_each_all:
  assumes "for_each (render_pass_at cv) [0..<length (passes st)] st = (None, st')"
  shows "\<exists>rs us. st' = st\<lparr>draws := draws st @ map pass_draw (passes st), rtargets := rs,
            passes := map swap_pass (passes st), uniforms := us\<rparr>
          \<and> length rs = length (rtargets st) \<and> dom us = dom (uniforms st)"
proof -
  from for_each_shape[OF assms distinct_upt] obtain ds rs us ps where
    e: "st' = st\<lparr>draws := draws st @ ds, rtargets := rs, passes := ps, uniforms := us\<rparr>"
    and l: "length rs = length (rtargets st)" and d: "dom us = dom (uniforms st)"
    and lp: "length ps = length (passes st)"
    and pw: "\<forall>j. ps ! j = (if j \<in> set [0..<length (passes st)] \<and> j < length (passes st)
                              then swap_pass (passes st ! j) else passes st ! j)"
    by (elim exE conjE) (rule that)
  have ps: "ps = map swap_pass (passes st)"
    using lp pw by (intro nth_equalityI) auto
  have "draws st' = draws st @ map (\<lambda>j. pass_draw (passes st ! j)) [0..<length (passes st)]"
    by (rule for_each_draws[OF assms distinct_upt])
  also have "map (\<lambda>j. pass_draw (passes st ! j)) [0..<length (passes st)] = map pass_draw (passes st)"
    by (intro nth_equalityI) simp_all
  finally have "ds = map pass_draw (passes st)" by (simp add: e)
  with e ps have "st' = st\<lparr>draws := draws st @ map pass_draw (passes st), rtargets := rs,
            passes := map swap_pass (passes st), uniforms := us\<rparr>" by simp
  with l d show ?thesis by blast
qed

lemma render_pass_at_ok:
  assumes "''PASSINDEX'' \<in> dom (uniforms st)"
    and "\<forall>t. target (passes st ! i) = Some t \<longrightarrow> t_name t \<in> dom (uniforms st)
           \<and> t_getWidth t (offsetWidth cv / pixelRatio st) (offsetHeight cv / pixelRatio st) \<noteq> None
           \<and> t_getHeight t (offsetWidth cv / pixelRatio st) (offsetHeight cv / pixelRatio st) \<noteq> None"
  shows "fst (render_pass_at cv i st) = None"
  using assms
  by (cases "target (passes st ! i)")
     (auto simp: render_pass_at_def and_then_def set_value_def Let_def setSize_def render_to_def
        split: option.splits)

lemma for_each_ok:
  assumes "distinct js" and "''PASSINDEX'' \<in> dom (uniforms st)"
    and "\<forall>j\<in>set js. \<forall>t. target (passes st ! j) = Some t \<longrightarrow> t_name t \<in> dom (uniforms st)
           \<and> t_getWidth t (offsetWidth cv / pixelRatio st) (offsetHeight cv / pixelRatio st) \<noteq> None
           \<and> t_getHeight t (offsetWidth cv / pixelRatio st) (offsetHeight cv / pixelRatio st) \<noteq> None"
  shows "fst (for_each (render_pass_at cv) js st) = None"
  using assms
proof (induction js arbitrary: st)
  case Nil
  then show ?case by simp
next
  case (Cons i js)
  have "fst (render_pass_at cv i st) = None"
    using Cons.prems by (intro render_pass_at_ok) auto
  then obtain s1 where s1: "render_pass_at cv i st = (None, s1)"
    by (cases "render_pass_at cv i st") auto
  from Cons.prems(1) have dj: "distinct js" and ni: "i \<notin> set js" by auto
  from render_pass_at_shape[OF s1] obtain d rs us where
    e1: "s1 = st\<lparr>draws := draws st @ [d], rtargets := rs,
            passes := (passes st)[i := swap_pass (passes st ! i)], uniforms := us\<rparr>"
    and d1: "dom us = dom (uniforms st)"
    by (elim exE conjE) (rule that)
  have same: "\<And>j. j \<in> set js \<Longrightarrow> passes s1 ! j = passes st ! j"
    using ni by (auto simp: e1 nth_list_update_any)
  have pr: "pixelRatio s1 = pixelRatio st" and us: "uniforms s1 = us" by (simp_all add: e1)
  have "fst (for_each (render_pass_at cv) js s1) = None"
  proof (rule Cons.IH[OF dj])
    show "''PASSINDEX'' \<in> dom (uniforms s1)" using Cons.prems(2) d1 by (simp add: e1)
    show "\<forall>j\<in>set js. \<forall>t. target (passes s1 ! j) = Some t \<longrightarrow> t_name t \<in> dom (uniforms s1)
           \<and> t_getWidth t (offsetWidth cv / pixelRatio s1) (offsetHeight cv / pixelRatio s1) \<noteq> None
           \<and> t_getHeight t (offsetWidth cv / pixelRatio s1) (offsetHeight cv / pixelRatio s1) \<noteq> None"
      unfolding pr us using Cons.prems(3) d1 same by simp
  qed
  with s1 show ?case by simp
qed

lemma render_last_frame:
  assumes "render_last s = (None, s')"
  shows "(\<forall>k. k \<noteq> ''FRAMEINDEX'' \<longrightarrow> uniforms s' k = uniforms s k)
       \<and> (\<exists>u. uniforms s ''FRAMEINDEX'' = Some u
              \<and> uniforms s' ''FRAMEINDEX'' = Some (u\<lparr>u_value := js_increment (u_value u)\<rparr>))
       \<and> (\<forall>r. r \<noteq> snd (targets s) \<longrightarrow> rtargets s' ! r = rtargets s ! r)"
  using assms
  by (cases "passes s = []")
     (auto simp: render_last_def Let_def render_to_def dest!: set_value_None
        split: option.splits if_splits)

lemma render_last_draws:
  assumes "render_last s = (None, s')"
  shows "draws s' = draws s
           @ (if target (last (passes s)) \<noteq> None
              then [\<lparr>d_scene = scene (last (passes s)), d_dest = None, d_forceClear = False\<rparr>]
              else [])
           @ [\<lparr>d_scene = scene (last (passes s)), d_dest = Some (snd (targets s)),
               d_forceClear = True\<rparr>]"
  using assms
  by (cases "passes s = []")
     (auto simp: render_last_def Let_def render_to_def dest!: set_value_None
        split: option.splits if_splits)

lemma render_last_ok:
  assumes "passes s \<noteq> []" and "''FRAMEINDEX'' \<in> dom (uniforms s)"
  shows "fst (render_last s) = None"
  using assms
  by (auto simp: render_last_def Let_def render_to_def set_value_def split: option.splits)

lemma render_steps:
  assumes "render e st = (None, st')" and "canvas st = Some cv" and "renderer st = Some r"
  shows "\<exists>us s5. dom us = dom (uniforms st)
           \<and> (\<forall>k. k \<noteq> ''time'' \<and> k \<noteq> ''backbuffer'' \<and> k \<noteq> ''volume'' \<longrightarrow> us k = uniforms st k)
           \<and> (\<exists>u. us ''time'' = Some u \<and> u_value u = UNum ((now e - start st) / 1000))
           \<and> (\<exists>u. us ''backbuffer'' = Some u \<and> u_value u = UTex (TargetTexture (snd (targets st))))
           \<and> (audioEnabled st \<longrightarrow> (\<exists>u. us ''volume'' = Some u \<and> u_value u = UNum (volume e)))
           \<and> for_each (render_pass_at cv) [0..<length (passes st)]
                (st\<lparr>targets := swap_targets (targets st), uniforms := us\<rparr>) = (None, s5)
           \<and> render_last s5 = (None, st')"
proof -
  from assms obtain s1 s3 s4 s5 where
    t: "set_value ''time'' (UNum ((now e - start st) / 1000)) st = (None, s1)" and
    b: "set_value ''backbuffer'' (UTex (TargetTexture (snd (targets s1))))
          (s1\<lparr>targets := swap_targets (targets s1)\<rparr>) = (None, s3)" and
    a: "(if audioEnabled s3 then set_value ''volume'' (UNum (volume e)) s3 else (None, s3)) = (None, s4)" and
    l: "for_each (render_pass_at cv) [0..<length (passes s4)] s4 = (None, s5)" and
    f: "render_last s5 = (None, st')"
    by (auto simp: render_def Let_def swap_targets_def dest!: and_then_None)
  from set_value_None[OF t] obtain u1 where
    e1: "s1 = st\<lparr>uniforms := (uniforms st)(''time'' \<mapsto> u1\<lparr>u_value := UNum ((now e - start st) / 1000)\<rparr>)\<rparr>"
    and k1: "uniforms st ''time'' = Some u1"
    by (elim exE conjE) (auto intro: that)
  from set_value_None[OF b] obtain u3 where
    e3: "s3 = s1\<lparr>targets := swap_targets (targets s1),
            uniforms := (uniforms s1)(''backbuffer'' \<mapsto>
               u3\<lparr>u_value := UTex (TargetTexture (snd (targets s1)))\<rparr>)\<rparr>"
    and k3: "''backbuffer'' \<in> dom (uniforms s1)"
    by (elim exE conjE) (auto intro: that)
  from a obtain us4 where
    e4: "s4 = s3\<lparr>uniforms := us4\<rparr>" and d4: "dom us4 = dom (uniforms s3)"
    and o4: "\<forall>k. k \<noteq> ''volume'' \<longrightarrow> us4 k = uniforms s3 k"
    and v4: "audioEnabled s3 \<longrightarrow> (\<exists>u. us4 ''volume'' = Some u \<and> u_value u = UNum (volume e))"
  proof (cases "audioEnabled s3")
    case True
    with a set_value_None[of "''volume''" _ s3 s4] obtain u where
      "uniforms s3 ''volume'' = Some u" "s4 = s3\<lparr>uniforms := (uniforms s3)(''volume'' \<mapsto> u\<lparr>u_value := UNum (volume e)\<rparr>)\<rparr>"
      by auto
    then show ?thesis by (intro that[of "(uniforms s3)(''volume'' \<mapsto> u\<lparr>u_value := UNum (volume e)\<rparr>)"]) auto
  next
    case False
    with a show ?thesis by (intro that[of "uniforms s3"]) auto
  qed
  have s4: "s4 = st\<lparr>targets := swap_targets (targets st), uniforms := us4\<rparr>"
    by (simp add: e4 e3 e1)
  have "dom us4 = dom (uniforms st)" using d4 k1 k3 by (auto simp: e3 e1)
  moreover have "\<forall>k. k \<noteq> ''time'' \<and> k \<noteq> ''backbuffer'' \<and> k \<noteq> ''volume'' \<longrightarrow> us4 k = uniforms st k"
    using o4 by (simp add: e3 e1)
  moreover have "\<exists>u. us4 ''time'' = Some u \<and> u_value u = UNum ((now e - start st) / 1000)"
    using o4 by (simp add: e3 e1)
  moreover have "\<exists>u. us4 ''backbuffer'' = Some u \<and> u_value u = UTex (TargetTexture (snd (targets st)))"
    using o4 by (simp add: e3 e1)
  moreover have "audioEnabled st \<longrightarrow> (\<exists>u. us4 ''volume'' = Some u \<and> u_value u = UNum (volume e))"
    using v4 by (simp add: e3 e1)
  moreover have "for_each (render_pass_at cv) [0..<length (passes st)]
                (st\<lparr>targets := swap_targets (targets st), uniforms := us4\<rparr>) = (None, s5)"
    using l by (simp add: s4)
  ultimately show ?thesis using f by blast
qed

lemma swap_pass_last:
  "ps \<noteq> [] \<Longrightarrow> scene (last (map swap_pass ps)) = scene (last ps)
     \<and> (target (last (map swap_pass ps)) \<noteq> None) = (target (last ps) \<noteq> None)"
  by (cases "target (last ps)") (auto simp: last_map swap_pass_def)

lemma render_draws:
  assumes "render e st = (None, st')" and "canvas st = Some cv" and "renderer st = Some r"
  shows "draws st' = draws st @ frame_draws st"
proof -
  from render_steps[OF assms] obtain us4 s5 where
    l: "for_each (render_pass_at cv) [0..<length (passes st)]
                (st\<lparr>targets := swap_targets (targets st), uniforms := us4\<rparr>) = (None, s5)"
    and f: "render_last s5 = (None, st')"
    by (elim exE conjE) (rule that)
  define s4 where "s4 = st\<lparr>targets := swap_targets (targets st), uniforms := us4\<rparr>"
  have l': "for_each (render_pass_at cv) [0..<length (passes s4)] s4 = (None, s5)"
    using l by (simp add: s4_def)
  from for_each_all[OF l'] obtain rs us where
    e5: "s5 = s4\<lparr>draws := draws s4 @ map pass_draw (passes s4), rtargets := rs,
            passes := map swap_pass (passes s4), uniforms := us\<rparr>"
    by (elim exE conjE) (rule that)
  have d5: "draws s5 = draws st @ map pass_draw (passes st)"
    and p5: "passes s5 = map swap_pass (passes st)"
    and t5: "snd (targets s5) = fst (targets st)"
    by (simp_all add: e5 s4_def swap_targets_def)
  from render_shape[OF assms] have ne: "passes st \<noteq> []" by simp
  from render_last_draws[OF f] swap_pass_last[OF ne] show ?thesis
    by (simp add: d5 p5 t5 frame_draws_def)
qed

lemma render_ok:
  assumes "frame_ready st"
  shows "fst (render e st) = None"
proof -
  from assms obtain cv r where cv: "canvas st = Some cv" and r: "renderer st = Some r"
    by (auto simp: frame_ready_def)
  from assms cv have sizes: "\<forall>p\<in>set (passes st). \<forall>t. target p = Some t \<longrightarrow>
       t_getWidth t (offsetWidth cv / pixelRatio st) (offsetHeight cv / pixelRatio st) \<noteq> None
       \<and> t_getHeight t (offsetWidth cv / pixelRatio st) (offsetHeight cv / pixelRatio st) \<noteq> None"
    by (simp add: frame_ready_def sizes_resolve_def)
  from assms have names: "\<forall>p\<in>set (passes st). \<forall>t. target p = Some t \<longrightarrow>
       t_name t \<in> dom (uniforms st)"
    by (simp add: frame_ready_def)
  from assms obtain u1 where k1: "uniforms st ''time'' = Some u1" by (auto simp: frame_ready_def)
  define s1 where "s1 = st\<lparr>uniforms := (uniforms st)(''time'' \<mapsto> u1\<lparr>u_value := UNum ((now e - start st) / 1000)\<rparr>)\<rparr>"
  have t: "set_value ''time'' (UNum ((now e - start st) / 1000)) st = (None, s1)"
    using k1 by (simp add: set_value_def s1_def)
  define s2 where "s2 = s1\<lparr>targets := swap_targets (targets s1)\<rparr>"
  from assms obtain u3 where k3: "uniforms s2 ''backbuffer'' = Some u3"
    by (auto simp: frame_ready_def s2_def s1_def)
  define s3 where "s3 = s2\<lparr>uniforms := (uniforms s2)(''backbuffer'' \<mapsto> u3\<lparr>u_value := UTex (TargetTexture (fst (targets s2)))\<rparr>)\<rparr>"
  have b: "set_value ''backbuffer'' (UTex (TargetTexture (fst (targets s2)))) s2 = (None, s3)"
    using k3 by (simp add: set_value_def s3_def)
  obtain s4 where a: "(if audioEnabled s3 then set_value ''volume'' (UNum (volume e)) s3 else (None, s3)) = (None, s4)"
    and p4: "passes s4 = passes st" and d4: "dom (uniforms s4) = dom (uniforms st)"
    and r4: "pixelRatio s4 = pixelRatio st"
  proof (cases "audioEnabled s3")
    case True
    then have "audioEnabled st" by (simp add: s3_def s2_def s1_def)
    with assms obtain u where u: "uniforms s3 ''volume'' = Some u"
      by (auto simp: frame_ready_def s3_def s2_def s1_def)
    show ?thesis
      using True u k1 k3
      by (intro that[of "s3\<lparr>uniforms := (uniforms s3)(''volume'' \<mapsto> u\<lparr>u_value := UNum (volume e)\<rparr>)\<rparr>"])
         (auto simp: set_value_def s3_def s2_def s1_def)
  next
    case False
    then show ?thesis using k1 k3 by (intro that[of s3]) (auto simp: s3_def s2_def s1_def)
  qed
  have "fst (for_each (render_pass_at cv) [0..<length (passes s4)] s4) = None"
  proof (rule for_each_ok)
    show "distinct [0..<length (passes s4)]" by simp
    show "''PASSINDEX'' \<in> dom (uniforms s4)" using assms d4 by (simp add: frame_ready_def)
    show "\<forall>j\<in>set [0..<length (passes s4)]. \<forall>t. target (passes s4 ! j) = Some t
              \<longrightarrow> t_name t \<in> dom (uniforms s4)
           \<and> t_getWidth t (offsetWidth cv / pixelRatio s4) (offsetHeight cv / pixelRatio s4) \<noteq> None
           \<and> t_getHeight t (offsetWidth cv / pixelRatio s4) (offsetHeight cv / pixelRatio s4) \<noteq> None"
      unfolding p4 d4 r4
    proof (intro ballI allI impI)
      fix j t
      assume "j \<in> set [0..<length (passes st)]" and tg: "target (passes st ! j) = Some t"
      then have "passes st ! j \<in> set (passes st)" by simp
      with sizes names tg show "t_name t \<in> dom (uniforms st)
           \<and> t_getWidth t (offsetWidth cv / pixelRatio st) (offsetHeight cv / pixelRatio st) \<noteq> None
           \<and> t_getHeight t (offsetWidth cv / pixelRatio st) (offsetHeight cv / pixelRatio st) \<noteq> None"
        by blast
    qed
  qed
  then obtain s5 where l: "for_each (render_pass_at cv) [0..<length (passes s4)] s4 = (None, s5)"
    by (cases "for_each (render_pass_at cv) [0..<length (passes s4)] s4") auto
  from for_each_shape[OF l distinct_upt] obtain ds rs us ps where
    e5: "s5 = s4\<lparr>draws := draws s4 @ ds, rtargets := rs, passes := ps, uniforms := us\<rparr>"
    and d5: "dom us = dom (uniforms s4)" and lp: "length ps = length (passes s4)"
    by (elim exE conjE) (rule that)
  have "fst (render_last s5) = None"
  proof (rule render_last_ok)
    show "passes s5 \<noteq> []" using lp p4 assms by (auto simp: e5 frame_ready_def)
    show "''FRAMEINDEX'' \<in> dom (uniforms s5)" using d5 d4 assms by (simp add: e5 frame_ready_def)
  qed
  moreover have "set_value ''backbuffer'' (UTex (TargetTexture (fst (swap_targets (targets s1))))) s2
      = (None, s3)"
    using b by (simp add: s2_def)
  ultimately show ?thesis
    using cv r t a l
    by (simp add: render_def Let_def and_then_def s2_def[symmetric])
qed

lemma swap_pass_name: "map_option t_name (target (swap_pass p)) = map_option t_name (target p)"
  by (cases "target p") (auto simp: swap_pass_def)

lemma swap_pass_target:
  assumes "target (swap_pass p) = Some t"
  shows "\<exists>t0. target p = Some t0 \<and> t_name t0 = t_name t \<and> t_getWidth t0 = t_getWidth t
              \<and> t_getHeight t0 = t_getHeight t"
  using assms by (cases "target p") (auto simp: swap_pass_def)

lemma frame_ready_names:
  assumes "frame_ready st" and "p \<in> set (passes st)" and "target p = Some t"
  shows "t_name t \<in> dom (uniforms st) \<and> t_name t \<noteq> ''FRAMEINDEX'' \<and> t_name t \<noteq> ''time''
       \<and> t_name t \<noteq> ''backbuffer'' \<and> t_name t \<noteq> ''volume''"
proof -
  from assms(1) have "\<forall>p\<in>set (passes st). \<forall>t. target p = Some t \<longrightarrow>
            t_name t \<in> dom (uniforms st) \<and> t_name t \<noteq> ''FRAMEINDEX'' \<and> t_name t \<noteq> ''time''
            \<and> t_name t \<noteq> ''backbuffer'' \<and> t_name t \<noteq> ''volume''"
    unfolding frame_ready_def by simp
  with assms(2,3) show ?thesis by blast
qed

lemma frame_ready_swap:
  assumes "frame_ready st" and "dom us = dom (uniforms st)"
  shows "frame_ready (st\<lparr>frame := f, targets := tg, draws := ds, rtargets := rs,
            passes := map swap_pass (passes st), uniforms := us, rafPending := k\<rparr>)"
proof -
  from assms(1) obtain cv where cv: "canvas st = Some cv" by (auto simp: frame_ready_def)
  from assms(1) cv have sizes: "\<forall>p\<in>set (passes st). \<forall>t. target p = Some t \<longrightarrow>
       t_getWidth t (offsetWidth cv / pixelRatio st) (offsetHeight cv / pixelRatio st) \<noteq> None
       \<and> t_getHeight t (offsetWidth cv / pixelRatio st) (offsetHeight cv / pixelRatio st) \<noteq> None"
    by (simp add: frame_ready_def sizes_resolve_def)
  have names: "\<forall>p\<in>set (map swap_pass (passes st)). \<forall>t. target p = Some t \<longrightarrow>
      t_name t \<in> dom (uniforms st)
      \<and> t_name t \<notin> set [''FRAMEINDEX'', ''time'', ''backbuffer'', ''volume'']"
  proof (intro ballI allI impI)
    fix p t
    assume "p \<in> set (map swap_pass (passes st))" and t: "target p = Some t"
    then obtain p0 where p0: "p0 \<in> set (passes st)" and p: "p = swap_pass p0" by auto
    from swap_pass_target[OF t[unfolded p]] obtain t0 where
      t0: "target p0 = Some t0" and n: "t_name t0 = t_name t" by blast
    from frame_ready_names[OF assms(1) p0 t0] n
    show "t_name t \<in> dom (uniforms st)
      \<and> t_name t \<notin> set [''FRAMEINDEX'', ''time'', ''backbuffer'', ''volume'']"
      by simp
  qed
  have sizes': "\<forall>p\<in>set (map swap_pass (passes st)). \<forall>t. target p = Some t \<longrightarrow>
       t_getWidth t (offsetWidth cv / pixelRatio st) (offsetHeight cv / pixelRatio st) \<noteq> None
       \<and> t_getHeight t (offsetWidth cv / pixelRatio st) (offsetHeight cv / pixelRatio st) \<noteq> None"
  proof (intro ballI allI impI)
    fix p t
    assume "p \<in> set (map swap_pass (passes st))" and t: "target p = Some t"
    then obtain p0 where p0: "p0 \<in> set (passes st)" and p: "p = swap_pass p0" by auto
    from swap_pass_target[OF t[unfolded p]] obtain t0 where
      t0: "target p0 = Some t0" and w: "t_getWidth t0 = t_getWidth t"
      and h: "t_getHeight t0 = t_getHeight t" by blast
    from sizes p0 t0 have
      "t_getWidth t0 (offsetWidth cv / pixelRatio st) (offsetHeight cv / pixelRatio st) \<noteq> None
       \<and> t_getHeight t0 (offsetWidth cv / pixelRatio st) (offsetHeight cv / pixelRatio st) \<noteq> None"
      by blast
    then show "t_getWidth t (offsetWidth cv / pixelRatio st) (offsetHeight cv / pixelRatio st) \<noteq> None
       \<and> t_getHeight t (offsetWidth cv / pixelRatio st) (offsetHeight cv / pixelRatio st) \<noteq> None"
      by (simp add: w h)
  qed
  from assms(1) have base: "canvas st \<noteq> None" "renderer st \<noteq> None" "pixelRatio st \<noteq> 0"
    "passes st \<noteq> []"
    "''time'' \<in> dom (uniforms st)" "''backbuffer'' \<in> dom (uniforms st)"
    "''PASSINDEX'' \<in> dom (uniforms st)" "''FRAMEINDEX'' \<in> dom (uniforms st)"
    "audioEnabled st \<longrightarrow> ''volume'' \<in> dom (uniforms st)"
    unfolding frame_ready_def by simp_all
  have sr: "sizes_resolve (st\<lparr>frame := f, targets := tg, draws := ds, rtargets := rs,
            passes := map swap_pass (passes st), uniforms := us, rafPending := k\<rparr>)"
    unfolding sizes_resolve_def using sizes' cv by simp
  show ?thesis
    unfolding frame_ready_def using base names sr by (simp add: assms(2))
qed

text \<open>One frame from a ready state, in closed form.\<close>

lemma render_frame:
  assumes "frame_ready st" and "uniforms st ''FRAMEINDEX'' = Some u" and "u_value u = UNum n"
  shows "\<exists>rs us. render e st = (None, st\<lparr>targets := swap_targets (targets st),
              draws := draws st @ frame_draws st, rtargets := rs,
              passes := map swap_pass (passes st), uniforms := us\<rparr>)
           \<and> length rs = length (rtargets st) \<and> dom us = dom (uniforms st)
           \<and> (\<exists>u'. us ''FRAMEINDEX'' = Some u' \<and> u_value u' = UNum (n + 1))
           \<and> (\<exists>u'. us ''time'' = Some u' \<and> u_value u' = UNum ((now e - start st) / 1000))
           \<and> (\<exists>u'. us ''backbuffer'' = Some u'
                  \<and> u_value u' = UTex (TargetTexture (snd (targets st))))
           \<and> (audioEnabled st \<longrightarrow> (\<exists>u'. us ''volume'' = Some u' \<and> u_value u' = UNum (volume e)))"
proof -
  from render_ok[OF assms(1), of e] obtain st' where run: "render e st = (None, st')"
    by (cases "render e st") auto
  from assms(1) obtain cv r where cv: "canvas st = Some cv" and r: "renderer st = Some r"
    by (auto simp: frame_ready_def)
  from render_shape[OF run cv r] obtain ds rs us where
    eq: "st' = st\<lparr>targets := swap_targets (targets st), draws := draws st @ ds, rtargets := rs,
            passes := map swap_pass (passes st), uniforms := us\<rparr>"
    and lrs: "length rs = length (rtargets st)" and dus: "dom us = dom (uniforms st)"
    by (elim exE conjE) (rule that)
  from render_draws[OF run cv r] have ds: "ds = frame_draws st" by (simp add: eq)
  from render_steps[OF run cv r] obtain us4 s5 ut ub where
    o4: "\<forall>k. k \<noteq> ''time'' \<and> k \<noteq> ''backbuffer'' \<and> k \<noteq> ''volume'' \<longrightarrow> us4 k = uniforms st k"
    and ut: "us4 ''time'' = Some ut" "u_value ut = UNum ((now e - start st) / 1000)"
    and ub: "us4 ''backbuffer'' = Some ub" "u_value ub = UTex (TargetTexture (snd (targets st)))"
    and uv: "audioEnabled st \<longrightarrow> (\<exists>u. us4 ''volume'' = Some u \<and> u_value u = UNum (volume e))"
    and l: "for_each (render_pass_at cv) [0..<length (passes st)]
                (st\<lparr>targets := swap_targets (targets st), uniforms := us4\<rparr>) = (None, s5)"
    and f: "render_last s5 = (None, st')"
    by (elim exE conjE) (rule that)
  define s4 where "s4 = st\<lparr>targets := swap_targets (targets st), uniforms := us4\<rparr>"
  have names: "Some k \<noteq> map_option t_name (target (passes s4 ! j))"
    if "j < length (passes st)"
      and "k = ''FRAMEINDEX'' \<or> k = ''time'' \<or> k = ''backbuffer'' \<or> k = ''volume''" for j k
  proof (cases "target (passes st ! j)")
    case None
    then show ?thesis by (simp add: s4_def)
  next
    case (Some t)
    from that(1) have "passes st ! j \<in> set (passes st)" by simp
    from frame_ready_names[OF assms(1) this Some] that(2) Some show ?thesis
      by (auto simp: s4_def)
  qed
  from for_each_frame[OF l distinct_upt] have
    keep: "\<forall>k. k \<noteq> ''PASSINDEX''
              \<and> (\<forall>j\<in>set [0..<length (passes st)]. Some k \<noteq> map_option t_name (target (passes s4 ! j)))
            \<longrightarrow> uniforms s5 k = uniforms s4 k"
    unfolding s4_def by (rule conjunct1)
  have keep4: "uniforms s5 k = us4 k"
    if "k = ''FRAMEINDEX'' \<or> k = ''time'' \<or> k = ''backbuffer'' \<or> k = ''volume''" for k
  proof -
    have "k \<noteq> ''PASSINDEX''" using that by auto
    moreover have "\<forall>j\<in>set [0..<length (passes st)].
        Some k \<noteq> map_option t_name (target (passes s4 ! j))"
      using names that by simp
    ultimately have "uniforms s5 k = uniforms s4 k" using keep by blast
    then show ?thesis by (simp add: s4_def)
  qed
  have fi5: "uniforms s5 ''FRAMEINDEX'' = Some u"
    using keep4[of "''FRAMEINDEX''"] o4 assms(2) by simp
  from render_last_frame[OF f] have
    other: "\<forall>k. k \<noteq> ''FRAMEINDEX'' \<longrightarrow> uniforms st' k = uniforms s5 k"
    and inc: "\<exists>u. uniforms s5 ''FRAMEINDEX'' = Some u
              \<and> uniforms st' ''FRAMEINDEX'' = Some (u\<lparr>u_value := js_increment (u_value u)\<rparr>)"
    by blast+
  have us: "uniforms st' = us" by (simp add: eq)
  from inc fi5 assms(3) have
    "\<exists>u'. us ''FRAMEINDEX'' = Some u' \<and> u_value u' = UNum (n + 1)"
    unfolding us[symmetric] by (auto simp: js_increment_def)
  moreover from other keep4[of "''time''"] ut have
    "\<exists>u'. us ''time'' = Some u' \<and> u_value u' = UNum ((now e - start st) / 1000)"
    unfolding us[symmetric] by simp
  moreover from other keep4[of "''backbuffer''"] ub have
    "\<exists>u'. us ''backbuffer'' = Some u' \<and> u_value u' = UTex (TargetTexture (snd (targets st)))"
    unfolding us[symmetric] by simp
  moreover from other keep4[of "''volume''"] uv have
    "audioEnabled st \<longrightarrow> (\<exists>u'. us ''volume'' = Some u' \<and> u_value u' = UNum (volume e))"
    unfolding us[symmetric] by simp
  moreover have "render e st = (None, st\<lparr>targets := swap_targets (targets st),
              draws := draws st @ frame_draws st, rtargets := rs,
              passes := map swap_pass (passes st), uniforms := us\<rparr>)"
    using run eq ds by simp
  ultimately show ?thesis using lrs dus by blast
qed

lemma js_rem_zero: "js_rem a b = Some 0 \<longleftrightarrow> b \<noteq> 0 \<and> b dvd a"
proof (cases "b = 0")
  case True
  then show ?thesis by (simp add: js_rem_def)
next
  case False
  have "sgn a * (\<bar>a\<bar> mod \<bar>b\<bar>) = 0 \<longleftrightarrow> \<bar>b\<bar> dvd \<bar>a\<bar>"
    by (cases "a = 0") (auto simp: sgn_if dvd_eq_mod_eq_0)
  with False show ?thesis by (simp add: js_rem_def)
qed

lemma div_step:
  fixes f S :: int
  assumes "0 < S"
  shows "(f + 1) div S - f div S = (if S dvd (f + 1) then 1 else 0)"
proof -
  define q where "q = (f + 1) div S"
  define r where "r = (f + 1) mod S"
  have fq: "f + 1 = S * q + r" by (simp add: q_def r_def)
  have r0: "0 \<le> r" and rS: "r < S" using assms by (simp_all add: r_def)
  show ?thesis
  proof (cases "r = 0")
    case True
    then have dv: "S dvd (f + 1)" by (simp add: fq)
    have "f = S * (q - 1) + (S - 1)" using fq True by (simp add: algebra_simps)
    then have "f div S = q - 1" by (rule int_div_pos_eq) (use assms in simp_all)
    with dv show ?thesis by (simp add: q_def)
  next
    case False
    then have dv: "\<not> S dvd (f + 1)" by (simp add: r_def dvd_eq_mod_eq_0)
    have "f = S * q + (r - 1)" using fq by simp
    then have "f div S = q" by (rule int_div_pos_eq) (use r0 rS False in simp_all)
    with dv show ?thesis by (simp add: q_def)
  qed
qed

lemma div_count_aligned:
  fixes f S T :: int
  assumes "S dvd f"
  shows "(f + T) div S - f div S = T div S"
  using assms by (auto simp: dvd_def)


lemma frame_ready_tick [simp]:
  "frame_ready (st\<lparr>frame := f, rafPending := k\<rparr>) = frame_ready st"
  by (cases "canvas st") (simp_all add: frame_ready_def sizes_resolve_def)

lemma frame_draws_tick [simp]:
  "frame_draws (st\<lparr>frame := f, rafPending := k\<rparr>) = frame_draws st"
  by (simp add: frame_draws_def)

text \<open>One tick: a frame when the new tick counter is a multiple of the stride, and
  nothing but the two counters otherwise.\<close>

lemma animate_tick:
  assumes "frame_ready st" and "isPlaying st" and "0 < frameskip st"
    and "uniforms st ''FRAMEINDEX'' = Some u" and "u_value u = UNum n"
  shows "if frameskip st dvd frame st + 1
         then \<exists>rs us. animate e st = (None, st\<lparr>frame := frame st + 1,
                    targets := swap_targets (targets st),
                    draws := draws st @ frame_draws st, rtargets := rs,
                    passes := map swap_pass (passes st), uniforms := us,
                    rafPending := rafPending st + 1\<rparr>)
                \<and> length rs = length (rtargets st) \<and> dom us = dom (uniforms st)
                \<and> (\<exists>u'. us ''FRAMEINDEX'' = Some u' \<and> u_value u' = UNum (n + 1))
                \<and> (\<exists>u'. us ''time'' = Some u' \<and> u_value u' = UNum ((now e - start st) / 1000))
                \<and> (\<exists>u'. us ''backbuffer'' = Some u'
                       \<and> u_value u' = UTex (TargetTexture (snd (targets st))))
                \<and> (audioEnabled st \<longrightarrow>
                     (\<exists>u'. us ''volume'' = Some u' \<and> u_value u' = UNum (volume e)))
         else animate e st = (None, st\<lparr>frame := frame st + 1, rafPending := rafPending st + 1\<rparr>)"
proof -
  define s2 where "s2 = st\<lparr>frame := frame st + 1, rafPending := rafPending st + 1\<rparr>"
  have a: "animate e st = (if frameskip st dvd frame st + 1 then render e s2 else (None, s2))"
    using assms(2,3) by (simp add: animate_def Let_def js_rem_zero s2_def)
  show ?thesis
  proof (cases "frameskip st dvd frame st + 1")
    case False
    with a show ?thesis by (simp add: s2_def)
  next
    case True
    have r2: "frame_ready s2" using assms(1) by (simp add: s2_def)
    have u2: "uniforms s2 ''FRAMEINDEX'' = Some u" using assms(4) by (simp add: s2_def)
    from render_frame[OF r2 u2 assms(5), of e] obtain rs us where
      run: "render e s2 = (None, s2\<lparr>targets := swap_targets (targets s2),
              draws := draws s2 @ frame_draws s2, rtargets := rs,
              passes := map swap_pass (passes s2), uniforms := us\<rparr>)"
      and rest: "length rs = length (rtargets s2)" "dom us = dom (uniforms s2)"
        "\<exists>u'. us ''FRAMEINDEX'' = Some u' \<and> u_value u' = UNum (n + 1)"
        "\<exists>u'. us ''time'' = Some u' \<and> u_value u' = UNum ((now e - start s2) / 1000)"
        "\<exists>u'. us ''backbuffer'' = Some u' \<and> u_value u' = UTex (TargetTexture (snd (targets s2)))"
        "audioEnabled s2 \<longrightarrow> (\<exists>u'. us ''volume'' = Some u' \<and> u_value u' = UNum (volume e))"
      by blast
    have "animate e st = (None, st\<lparr>frame := frame st + 1,
                    targets := swap_targets (targets st),
                    draws := draws st @ frame_draws st, rtargets := rs,
                    passes := map swap_pass (passes st), uniforms := us,
                    rafPending := rafPending st + 1\<rparr>)"
      using a True run by (simp add: s2_def)
    with rest True show ?thesis by (simp add: s2_def) blast
  qed
qed

lemma frame_draws_swap:
  assumes "passes st \<noteq> []"
  shows "length (frame_draws (st\<lparr>frame := f, targets := tg, draws := ds, rtargets := rs,
            passes := map swap_pass (passes st), uniforms := us, rafPending := k\<rparr>))
         = length (frame_draws st)"
  using swap_pass_last[OF assms] by (simp add: frame_draws_def)

text \<open>A run of ticks.\<close>

lemma ticks_count:
  assumes "frame_ready st" and "isPlaying st" and "0 < frameskip st"
    and "uniforms st ''FRAMEINDEX'' = Some u" and "u_value u = UNum n"
  shows "frame (ticks es st) = frame st + int (length es)
       \<and> rafPending (ticks es st) = rafPending st + length es
       \<and> (\<exists>u'. uniforms (ticks es st) ''FRAMEINDEX'' = Some u'
             \<and> u_value u' = UNum (n + of_int ((frame st + int (length es)) div frameskip st
                                        - frame st div frameskip st)))
       \<and> targets (ticks es st)
           = (swap_targets ^^ nat ((frame st + int (length es)) div frameskip st
                                     - frame st div frameskip st)) (targets st)
       \<and> passes (ticks es st)
           = (map swap_pass ^^ nat ((frame st + int (length es)) div frameskip st
                                      - frame st div frameskip st)) (passes st)
       \<and> length (draws (ticks es st))
           = length (draws st) + nat ((frame st + int (length es)) div frameskip st
                                        - frame st div frameskip st) * length (frame_draws st)"
  using assms
proof (induction es arbitrary: st u n)
  case Nil
  then show ?case by simp
next
  case (Cons e es)
  define s1 where "s1 = snd (animate e st)"
  define c :: int where "c = (if frameskip st dvd frame st + 1 then 1 else 0)"
  define C where "C = (frame st + 1 + int (length es)) div frameskip st
                        - (frame st + 1) div frameskip st"
  define m where "m = n + of_int c"
  from Cons.prems(1) have ne: "passes st \<noteq> []" by (simp add: frame_ready_def)
  have step: "(frame st + 1) div frameskip st = frame st div frameskip st + c"
    using div_step[OF Cons.prems(3), of "frame st"] by (simp add: c_def)
  have C0: "0 \<le> C"
    unfolding C_def using Cons.prems(3) by (simp add: zdiv_mono1)
  have c0: "0 \<le> c" by (simp add: c_def)
  have total: "(frame st + int (length (e # es))) div frameskip st - frame st div frameskip st
                 = c + C"
    unfolding C_def step by (simp add: add.commute add.left_commute)
  have one: "frame_ready s1 \<and> isPlaying s1 \<and> frameskip s1 = frameskip st
       \<and> frame s1 = frame st + 1 \<and> rafPending s1 = rafPending st + 1
       \<and> (\<exists>u'. uniforms s1 ''FRAMEINDEX'' = Some u' \<and> u_value u' = UNum m)
       \<and> targets s1 = (swap_targets ^^ nat c) (targets st)
       \<and> passes s1 = (map swap_pass ^^ nat c) (passes st)
       \<and> length (draws s1) = length (draws st) + nat c * length (frame_draws st)
       \<and> length (frame_draws s1) = length (frame_draws st)"
  proof (cases "frameskip st dvd frame st + 1")
    case False
    with animate_tick[OF Cons.prems, of e] have
      "animate e st = (None, st\<lparr>frame := frame st + 1, rafPending := rafPending st + 1\<rparr>)"
      by simp
    then have "s1 = st\<lparr>frame := frame st + 1, rafPending := rafPending st + 1\<rparr>"
      by (simp add: s1_def)
    with False Cons.prems show ?thesis by (simp add: c_def m_def)
  next
    case True
    with animate_tick[OF Cons.prems, of e] obtain rs us where
      a: "animate e st = (None, st\<lparr>frame := frame st + 1,
                    targets := swap_targets (targets st),
                    draws := draws st @ frame_draws st, rtargets := rs,
                    passes := map swap_pass (passes st), uniforms := us,
                    rafPending := rafPending st + 1\<rparr>)"
      and dus: "dom us = dom (uniforms st)"
      and fi: "\<exists>u'. us ''FRAMEINDEX'' = Some u' \<and> u_value u' = UNum (n + 1)"
      by auto
    have e1: "s1 = st\<lparr>frame := frame st + 1,
                    targets := swap_targets (targets st),
                    draws := draws st @ frame_draws st, rtargets := rs,
                    passes := map swap_pass (passes st), uniforms := us,
                    rafPending := rafPending st + 1\<rparr>"
      using a by (simp add: s1_def)
    have r1: "frame_ready s1"
      unfolding e1 by (rule frame_ready_swap[OF Cons.prems(1) dus])
    have fl: "length (frame_draws s1) = length (frame_draws st)"
      unfolding e1 by (rule frame_draws_swap[OF ne])
    from True fi r1 fl Cons.prems(2) show ?thesis
      by (simp add: e1 c_def m_def)
  qed
  then obtain u1 where
    r1: "frame_ready s1" and p1: "isPlaying s1" and k1: "frameskip s1 = frameskip st"
    and f1: "frame s1 = frame st + 1" and q1: "rafPending s1 = rafPending st + 1"
    and u1: "uniforms s1 ''FRAMEINDEX'' = Some u1" and v1: "u_value u1 = UNum m"
    and t1: "targets s1 = (swap_targets ^^ nat c) (targets st)"
    and ps1: "passes s1 = (map swap_pass ^^ nat c) (passes st)"
    and d1: "length (draws s1) = length (draws st) + nat c * length (frame_draws st)"
    and fl: "length (frame_draws s1) = length (frame_draws st)"
    by blast
  have pos1: "0 < frameskip s1" using Cons.prems(3) k1 by simp
  have C1: "(frame s1 + int (length es)) div frameskip s1 - frame s1 div frameskip s1 = C"
    by (simp add: C_def f1 k1)
  from Cons.IH[OF r1 p1 pos1 u1 v1] obtain u' where
    a: "frame (ticks es s1) = frame s1 + int (length es)"
    and q: "rafPending (ticks es s1) = rafPending s1 + length es"
    and b: "uniforms (ticks es s1) ''FRAMEINDEX'' = Some u'"
    and cc: "u_value u' = UNum (m + of_int C)"
    and t: "targets (ticks es s1) = (swap_targets ^^ nat C) (targets s1)"
    and p: "passes (ticks es s1) = (map swap_pass ^^ nat C) (passes s1)"
    and d: "length (draws (ticks es s1)) = length (draws s1) + nat C * length (frame_draws s1)"
    unfolding C1 by blast
  have n: "nat (c + C) = nat C + nat c" using c0 C0 by (simp add: nat_add_distrib)
  have "frame (ticks (e # es) st) = frame st + int (length (e # es))"
    using a by (simp add: s1_def[symmetric] f1)
  moreover have "rafPending (ticks (e # es) st) = rafPending st + length (e # es)"
    using q by (simp add: s1_def[symmetric] q1)
  moreover have "\<exists>u'. uniforms (ticks (e # es) st) ''FRAMEINDEX'' = Some u'
       \<and> u_value u' = UNum (n + of_int (c + C))"
    using b cc by (simp add: s1_def[symmetric] m_def add.assoc)
  moreover have "targets (ticks (e # es) st) = (swap_targets ^^ nat (c + C)) (targets st)"
    using t by (simp add: s1_def[symmetric] t1 n funpow_add)
  moreover have "passes (ticks (e # es) st) = (map swap_pass ^^ nat (c + C)) (passes st)"
    using p by (simp add: s1_def[symmetric] ps1 n funpow_add)
  moreover have "length (draws (ticks (e # es) st))
       = length (draws st) + nat (c + C) * length (frame_draws st)"
    unfolding n using d by (simp add: s1_def[symmetric] d1 fl algebra_simps)
  ultimately show ?case unfolding total by blast
qed

lemma pass_refs_mem:
  assumes "i < length ps" and "target (ps ! i) = Some t"
  shows "fst (t_targets t) \<in> set (pass_refs ps) \<and> snd (t_targets t) \<in> set (pass_refs ps)"
  using assms
proof (induction ps arbitrary: i)
  case Nil
  then show ?case by simp
next
  case (Cons p ps)
  show ?case
  proof (cases i)
    case 0
    with Cons.prems show ?thesis by simp
  next
    case (Suc i')
    with Cons.prems have "i' < length ps" "target (ps ! i') = Some t" by simp_all
    from Cons.IH[OF this] show ?thesis by (cases "target p") auto
  qed
qed

lemma pass_refs_distinct_back:
  assumes "distinct (pass_refs ps)" and "i < j" and "j < length ps"
    and "target (ps ! i) = Some t" and "target (ps ! j) = Some t'"
  shows "snd (t_targets t') \<noteq> snd (t_targets t)"
  using assms
proof (induction ps arbitrary: i j)
  case Nil
  then show ?case by simp
next
  case (Cons p ps)
  from Cons.prems(2) obtain j' where j: "j = Suc j'" by (cases j) auto
  with Cons.prems have j': "j' < length ps" "target (ps ! j') = Some t'" by simp_all
  show ?case
  proof (cases i)
    case 0
    with Cons.prems have p: "target p = Some t" by simp
    with Cons.prems(1) have "snd (t_targets t) \<notin> set (pass_refs ps)" by simp
    moreover from pass_refs_mem[OF j'] have "snd (t_targets t') \<in> set (pass_refs ps)" by simp
    ultimately show ?thesis by auto
  next
    case (Suc i')
    from Cons.prems(1) have d: "distinct (pass_refs ps)" by (cases "target p") auto
    from Suc j Cons.prems have "i' < j'" "target (ps ! i') = Some t" by simp_all
    from Cons.IH[OF d this(1) j'(1) this(2) j'(2)] show ?thesis .
  qed
qed

lemma render_pass_at_target:
  assumes "render_pass_at cv i st = (None, st')" and "target (passes st ! i) = Some t"
    and "snd (t_targets t) < length (rtargets st)"
  shows "draws st' = draws st @ [\<lparr>d_scene = scene (passes st ! i),
            d_dest = Some (snd (t_targets t)), d_forceClear = True\<rparr>]"
    and "t_getWidth t (offsetWidth cv / pixelRatio st) (offsetHeight cv / pixelRatio st)
           = Some (rt_width (rtargets st' ! snd (t_targets t)))"
    and "t_getHeight t (offsetWidth cv / pixelRatio st) (offsetHeight cv / pixelRatio st)
           = Some (rt_height (rtargets st' ! snd (t_targets t)))"
    and "rt_content (rtargets st' ! snd (t_targets t)) = Some (length (draws st))"
    and "\<exists>u. uniforms st' (t_name t) = Some u \<and> u_value u = UTex (TargetTexture (snd (t_targets t)))"
  using assms
  by (auto simp: render_pass_at_def Let_def setSize_def render_to_def swap_targets_def
       dest!: and_then_None set_value_None split: option.splits)

lemma pass_refs_swap:
  "set (pass_refs (map swap_pass ps)) = set (pass_refs ps)
   \<and> distinct (pass_refs (map swap_pass ps)) = distinct (pass_refs ps)"
proof (induction ps)
  case Nil
  then show ?case by simp
next
  case (Cons p ps)
  show ?case
  proof (cases "target p")
    case None
    with Cons show ?thesis by (simp add: swap_pass_def)
  next
    case (Some t)
    from Cons have S: "set (pass_refs (map swap_pass ps)) = set (pass_refs ps)"
      and D: "distinct (pass_refs (map swap_pass ps)) = distinct (pass_refs ps)" by simp_all
    have a: "pass_refs (map swap_pass (p # ps))
        = snd (t_targets t) # fst (t_targets t) # pass_refs (map swap_pass ps)"
      using Some by (simp add: swap_pass_def swap_targets_def)
    have b: "pass_refs (p # ps) = fst (t_targets t) # snd (t_targets t) # pass_refs ps"
      using Some by simp
    have "set (pass_refs (map swap_pass (p # ps))) = set (pass_refs (p # ps))"
      unfolding a b by (simp add: S insert_commute)
    moreover have "distinct (pass_refs (map swap_pass (p # ps))) = distinct (pass_refs (p # ps))"
      unfolding a b by (simp add: S D) auto
    ultimately show ?thesis by (rule conjI)
  qed
qed

text \<open>The buffers stay distinct objects from frame to frame.\<close>

lemma render_keeps_buffers_distinct:
  assumes "render e st = (None, st')" and "canvas st = Some cv" and "renderer st = Some r"
    and "distinct (fst (targets st) # snd (targets st) # pass_refs (passes st))"
  shows "distinct (fst (targets st') # snd (targets st') # pass_refs (passes st'))
       \<and> map (map_option t_name \<circ> target) (passes st') = map (map_option t_name \<circ> target) (passes st)
       \<and> length (rtargets st') = length (rtargets st)
       \<and> canvas st' = canvas st \<and> renderer st' = renderer st \<and> pixelRatio st' = pixelRatio st"
proof -
  from render_shape[OF assms(1-3)] obtain ds rs us where
    eq: "st' = st\<lparr>targets := swap_targets (targets st), draws := draws st @ ds, rtargets := rs,
            passes := map swap_pass (passes st), uniforms := us\<rparr>"
    and l: "length rs = length (rtargets st)"
    by (elim exE conjE) (rule that)
  have "map (map_option t_name \<circ> target) (map swap_pass (passes st))
      = map (map_option t_name \<circ> target) (passes st)"
    by (simp add: swap_pass_name comp_def)
  moreover have "distinct (snd (targets st) # fst (targets st) # pass_refs (map swap_pass (passes st)))"
  proof -
    from pass_refs_swap[of "passes st"] have
      S: "set (pass_refs (map swap_pass (passes st))) = set (pass_refs (passes st))"
      and D: "distinct (pass_refs (map swap_pass (passes st))) = distinct (pass_refs (passes st))"
      by simp_all
    from assms(4) show ?thesis by (simp add: S D)
  qed
  ultimately show ?thesis using l by (simp add: eq swap_targets_def)
qed

section \<open>Building a pipeline\<close>

text \<open>createRenderPass only appends to the store and writes the uniform table; it cannot
  fail once the canvas is set and the vertex count is usable.\<close>

lemma createRenderPass_shape:
  assumes "createRenderPass js p st = (r, st')"
  shows "\<exists>new us. st' = st\<lparr>rtargets := rtargets st @ new, uniforms := us\<rparr>
           \<and> dom (uniforms st) \<subseteq> dom us
           \<and> (vertex_count_ok js st \<longrightarrow> vertex_count_ok js (st\<lparr>rtargets := rtargets st @ new, uniforms := us\<rparr>))
           \<and> (case r of
                 Inl e \<Rightarrow> new = [] \<and> us = uniforms st
                          \<and> (canvas st \<noteq> None \<and> vertex_count_ok js st \<longrightarrow> False)
               | Inr rp \<Rightarrow> pass_refs [rp] = [length (rtargets st)..<length (rtargets st) + length new]
                          \<and> length new = (if truthy (TARGET p) then 2 else 0)
                          \<and> map_option t_name (target rp) = (if truthy (TARGET p) then TARGET p else None))"
proof (cases "canvas st")
  case None
  with assms show ?thesis
    by (intro exI[of _ "[]"] exI[of _ "uniforms st"]) (auto simp: createRenderPass_def)
next
  case (Some cv)
  show ?thesis
  proof (cases "createPlane js (fs p) (vs p) st")
    case (Inl e)
    with Some assms show ?thesis
      by (intro exI[of _ "[]"] exI[of _ "uniforms st"])
         (auto simp: createRenderPass_def createPlane_def vertex_count_ok_def split: if_splits option.splits)
  next
    case (Inr pl)
    show ?thesis
    proof (cases "truthy (TARGET p)")
      case False
      with Some Inr assms show ?thesis
        by (intro exI[of _ "[]"] exI[of _ "uniforms st"]) (auto simp: createRenderPass_def)
    next
      case True
      then obtain n where n: "TARGET p = Some n" by (auto simp: truthy_def split: option.splits)
      define rt where "rt = new_WebGLRenderTarget (offsetWidth cv / pixelRatio st)
                             (offsetHeight cv / pixelRatio st) (FLOAT p = Some True)"
      from True Some Inr assms n show ?thesis
        by (intro exI[of _ "[rt, rt]"]
              exI[of _ "(uniforms st)(n \<mapsto> \<lparr>u_type = ''t'', u_value = UTex (TargetTexture (length (rtargets st)))\<rparr>)"])
           (auto simp: createRenderPass_def Let_def rt_def vertex_count_ok_def typed_array_ok_def js_times_def)
    qed
  qed
qed


lemma upt_split: "[a..<a + x] @ [a + x..<a + x + y] = [a..<a + (x + y::nat)]"
  using upt_add_eq_append[of a "a + x" y] by (simp add: add.assoc)

lemma pass_refs_Cons: "pass_refs (p # ps) = pass_refs [p] @ pass_refs ps"
  by (cases "target p") auto

lemma create_passes_shape:
  assumes "create_passes js specs st = (r, st')"
  shows "\<exists>new us. st' = st\<lparr>rtargets := rtargets st @ new, uniforms := us\<rparr>
           \<and> dom (uniforms st) \<subseteq> dom us
           \<and> (vertex_count_ok js st \<longrightarrow> vertex_count_ok js (st\<lparr>rtargets := rtargets st @ new, uniforms := us\<rparr>))
           \<and> (case r of
                 Inl e \<Rightarrow> (canvas st \<noteq> None \<and> vertex_count_ok js st
                             \<longrightarrow> e = InvalidShaderError \<and> \<not> list_all has_source specs)
               | Inr rps \<Rightarrow> list_all has_source specs
                          \<and> pass_refs rps = [length (rtargets st)..<length (rtargets st) + length new]
                          \<and> length new = 2 * length (filter (\<lambda>p. truthy (TARGET p)) specs)
                          \<and> map (map_option t_name \<circ> target) rps = declared_names specs)"
  using assms
proof (induction specs arbitrary: st r st')
  case Nil
  then show ?case
    by (intro exI[of _ "[]"] exI[of _ "uniforms st"]) (auto simp: declared_names_def)
next
  case (Cons p ps)
  show ?case
  proof (cases "has_source p")
    case False
    with Cons.prems show ?thesis
      by (intro exI[of _ "[]"] exI[of _ "uniforms st"]) (auto simp: has_source_def)
  next
    case True
    obtain r1 s1 where c1: "createRenderPass js p st = (r1, s1)" by (cases "createRenderPass js p st")
    from createRenderPass_shape[OF c1] obtain new1 us1 where
      e1: "s1 = st\<lparr>rtargets := rtargets st @ new1, uniforms := us1\<rparr>"
      and d1: "dom (uniforms st) \<subseteq> dom us1"
      and v1: "vertex_count_ok js st \<longrightarrow> vertex_count_ok js (st\<lparr>rtargets := rtargets st @ new1, uniforms := us1\<rparr>)"
      and k1: "(case r1 of
                 Inl e \<Rightarrow> new1 = [] \<and> us1 = uniforms st
                          \<and> (canvas st \<noteq> None \<and> vertex_count_ok js st \<longrightarrow> False)
               | Inr rp \<Rightarrow> pass_refs [rp] = [length (rtargets st)..<length (rtargets st) + length new1]
                          \<and> length new1 = (if truthy (TARGET p) then 2 else 0)
                          \<and> map_option t_name (target rp) = (if truthy (TARGET p) then TARGET p else None))"
      by (elim exE conjE) (rule that)
    show ?thesis
    proof (cases r1)
      case (Inl e)
      with Cons.prems True c1 have "r = Inl e" "st' = s1" by (auto simp: has_source_def)
      with Inl k1 e1 show ?thesis
        by (intro exI[of _ "[]"] exI[of _ "uniforms st"]) auto
    next
      case (Inr rp)
      obtain r2 s2 where c2: "create_passes js ps s1 = (r2, s2)" by (cases "create_passes js ps s1")
      from Cons.IH[OF c2] obtain new2 us2 where
        e2: "s2 = s1\<lparr>rtargets := rtargets s1 @ new2, uniforms := us2\<rparr>"
        and d2: "dom (uniforms s1) \<subseteq> dom us2"
        and v2: "vertex_count_ok js s1 \<longrightarrow> vertex_count_ok js (s1\<lparr>rtargets := rtargets s1 @ new2, uniforms := us2\<rparr>)"
        and k2: "(case r2 of
                 Inl e \<Rightarrow> (canvas s1 \<noteq> None \<and> vertex_count_ok js s1
                             \<longrightarrow> e = InvalidShaderError \<and> \<not> list_all has_source ps)
               | Inr rps \<Rightarrow> list_all has_source ps
                          \<and> pass_refs rps = [length (rtargets s1)..<length (rtargets s1) + length new2]
                          \<and> length new2 = 2 * length (filter (\<lambda>p. truthy (TARGET p)) ps)
                          \<and> map (map_option t_name \<circ> target) rps = declared_names ps)"
        by (elim exE conjE) (rule that)
      have st': "st' = s2" and r: "r = (case r2 of Inl e \<Rightarrow> Inl e | Inr rps \<Rightarrow> Inr (rp # rps))"
        using Cons.prems True c1 c2 Inr by (auto simp: has_source_def split: sum.splits)
      have eq: "st' = st\<lparr>rtargets := rtargets st @ (new1 @ new2), uniforms := us2\<rparr>"
        by (simp add: st' e2 e1)
      have dom: "dom (uniforms st) \<subseteq> dom us2" using d1 d2 by (auto simp: e1)
      have vc: "vertex_count_ok js st \<longrightarrow> vertex_count_ok js (st\<lparr>rtargets := rtargets st @ (new1 @ new2), uniforms := us2\<rparr>)"
        using v1 v2 by (simp add: e1)
      have rest: "(case r of
                 Inl e \<Rightarrow> (canvas st \<noteq> None \<and> vertex_count_ok js st
                             \<longrightarrow> e = InvalidShaderError \<and> \<not> list_all has_source (p # ps))
               | Inr rps \<Rightarrow> list_all has_source (p # ps)
                          \<and> pass_refs rps = [length (rtargets st)..<length (rtargets st) + length (new1 @ new2)]
                          \<and> length (new1 @ new2) = 2 * length (filter (\<lambda>p. truthy (TARGET p)) (p # ps))
                          \<and> map (map_option t_name \<circ> target) rps = declared_names (p # ps))"
      proof (cases r2)
        case (Inl e)
        with k2 v1 r show ?thesis by (auto simp: e1)
      next
        case (Inr rps)
        with k2 have a: "list_all has_source ps"
          and b: "pass_refs rps = [length (rtargets s1)..<length (rtargets s1) + length new2]"
          and c: "length new2 = 2 * length (filter (\<lambda>p. truthy (TARGET p)) ps)"
          and d: "map (map_option t_name \<circ> target) rps = declared_names ps" by auto
        from k1 \<open>r1 = Inr rp\<close> have
          a1: "pass_refs [rp] = [length (rtargets st)..<length (rtargets st) + length new1]"
          and c1': "length new1 = (if truthy (TARGET p) then 2 else 0)"
          and d1': "map_option t_name (target rp) = (if truthy (TARGET p) then TARGET p else None)" by auto
        have "pass_refs (rp # rps) = [length (rtargets st)..<length (rtargets st) + length (new1 @ new2)]"
          unfolding pass_refs_Cons[of rp rps] a1 b
          by (simp add: e1 upt_split)
        with Inr r True a c c1' d d1' show ?thesis
          by (auto simp: declared_names_def)
      qed
      from eq dom vc rest show ?thesis by blast
    qed
  qed
qed

text \<open>What a build leaves behind, exactly: the targets and uniforms of the specs it got
  through, which are all the specs before the first one without a source when the canvas
  is set and the vertex count is usable.\<close>

lemma createRenderPass_built:
  assumes "canvas st = Some cv"
  shows "(\<exists>e. createRenderPass js p st = (Inl e, st) \<and> \<not> vertex_count_ok js st)
       \<or> (\<exists>rp. createRenderPass js p st =
             (Inr rp, st\<lparr>rtargets := rtargets st @ declared_targets cv (pixelRatio st) [p],
                        uniforms := declared_uniforms (length (rtargets st)) [p] (uniforms st)\<rparr>))"
proof (cases "createPlane js (fs p) (vs p) st")
  case (Inl e)
  with assms show ?thesis
    by (auto simp: createRenderPass_def createPlane_def vertex_count_ok_def
          split: if_splits option.splits)
next
  case (Inr pl)
  show ?thesis
  proof (cases "truthy (TARGET p)")
    case False
    with assms Inr show ?thesis
      by (simp add: createRenderPass_def declared_targets_def)
  next
    case True
    with assms Inr show ?thesis
      by (simp add: createRenderPass_def declared_targets_def Let_def numeral_2_eq_2)
  qed
qed

lemma declared_step:
  "declared_targets cv pr (p # ps) = declared_targets cv pr [p] @ declared_targets cv pr ps
   \<and> declared_uniforms r (p # ps) us
       = declared_uniforms (r + length (declared_targets cv pr [p])) ps (declared_uniforms r [p] us)"
  by (simp add: declared_targets_def)

lemma declared_targets_length:
  "length (declared_targets cv pr specs) = 2 * length (filter (\<lambda>p. truthy (TARGET p)) specs)"
  by (induction specs) (simp_all add: declared_targets_def)

lemma declared_keeps_vertex_count:
  assumes "vertex_count_ok js st"
  shows "vertex_count_ok js (st\<lparr>rtargets := rs, uniforms := declared_uniforms r [p] (uniforms st)\<rparr>)"
  using assms by (simp add: vertex_count_ok_def typed_array_ok_def js_times_def)

lemma create_passes_built:
  "\<exists>r k. create_passes js specs st =
      (r, st\<lparr>rtargets := rtargets st @
                (case canvas st of
                   None \<Rightarrow> []
                 | Some cv \<Rightarrow> declared_targets cv (pixelRatio st)
                               (take k (takeWhile has_source specs))),
             uniforms := declared_uniforms (length (rtargets st))
                           (take k (takeWhile has_source specs)) (uniforms st)\<rparr>)
    \<and> (canvas st = None \<longrightarrow> k = 0)
    \<and> (canvas st \<noteq> None \<and> vertex_count_ok js st \<longrightarrow> length (takeWhile has_source specs) \<le> k)
    \<and> (\<forall>e. r = Inl e \<and> canvas st \<noteq> None \<and> vertex_count_ok js st \<longrightarrow> e = InvalidShaderError)"
proof (induction specs arbitrary: st)
  case Nil
  show ?case
    by (intro exI[of _ "Inr []"] exI[of _ 0])
       (simp add: declared_targets_def split: option.splits)
next
  case (Cons p ps)
  show ?case
  proof (cases "has_source p")
    case False
    then have "create_passes js (p # ps) st = (Inl InvalidShaderError, st)"
      by (simp add: has_source_def)
    with False show ?thesis
      by (intro exI[of _ "Inl InvalidShaderError"] exI[of _ 0]) (simp add: declared_targets_def split: option.splits)
  next
    case True
    show ?thesis
    proof (cases "canvas st")
      case None
      with True have "create_passes js (p # ps) st = (Inl SetCanvasError, st)"
        by (simp add: has_source_def createRenderPass_def)
      with None show ?thesis
        by (intro exI[of _ "Inl SetCanvasError"] exI[of _ 0]) (simp add: declared_targets_def split: option.splits)
    next
      case (Some cv)
      from createRenderPass_built[OF Some, of js p]
      consider (fail) e where "createRenderPass js p st = (Inl e, st)" "\<not> vertex_count_ok js st"
        | (ok) rp where "createRenderPass js p st =
             (Inr rp, st\<lparr>rtargets := rtargets st @ declared_targets cv (pixelRatio st) [p],
                        uniforms := declared_uniforms (length (rtargets st)) [p] (uniforms st)\<rparr>)"
        by blast
      then show ?thesis
      proof cases
        case fail
        with True have "create_passes js (p # ps) st = (Inl e, st)"
          by (auto simp: has_source_def)
        with fail(2) Some show ?thesis
          by (intro exI[of _ "Inl e"] exI[of _ 0]) (simp add: declared_targets_def split: option.splits)
      next
        case ok
        define s1 where "s1 = st\<lparr>rtargets := rtargets st @ declared_targets cv (pixelRatio st) [p],
                        uniforms := declared_uniforms (length (rtargets st)) [p] (uniforms st)\<rparr>"
        have c1: "canvas s1 = Some cv" and pr1: "pixelRatio s1 = pixelRatio st"
          and rt1: "rtargets s1 = rtargets st @ declared_targets cv (pixelRatio st) [p]"
          and us1: "uniforms s1 = declared_uniforms (length (rtargets st)) [p] (uniforms st)"
          using Some by (simp_all add: s1_def)
        have v1: "vertex_count_ok js st \<longrightarrow> vertex_count_ok js s1"
          unfolding s1_def by (intro impI declared_keeps_vertex_count)
        from Cons.IH[of s1] obtain r2 k2 where
          run2: "create_passes js ps s1 =
            (r2, s1\<lparr>rtargets := rtargets s1 @
                (case canvas s1 of
                   None \<Rightarrow> []
                 | Some cv \<Rightarrow> declared_targets cv (pixelRatio s1)
                               (take k2 (takeWhile has_source ps))),
             uniforms := declared_uniforms (length (rtargets s1))
                           (take k2 (takeWhile has_source ps)) (uniforms s1)\<rparr>)"
          and full2: "canvas s1 \<noteq> None \<and> vertex_count_ok js s1
                        \<longrightarrow> length (takeWhile has_source ps) \<le> k2"
          and err2: "\<forall>e. r2 = Inl e \<and> canvas s1 \<noteq> None \<and> vertex_count_ok js s1
                        \<longrightarrow> e = InvalidShaderError"
          by (elim exE conjE) (rule that)
        define r where "r = (case r2 of Inl e \<Rightarrow> Inl e | Inr rps \<Rightarrow> Inr (rp # rps))"
        define pre where "pre = take k2 (takeWhile has_source ps)"
        have tk: "take (Suc k2) (takeWhile has_source (p # ps)) = p # pre"
          using True by (simp add: pre_def)
        have fin: "s1\<lparr>rtargets := rtargets s1 @
                (case canvas s1 of
                   None \<Rightarrow> []
                 | Some cv \<Rightarrow> declared_targets cv (pixelRatio s1) pre),
             uniforms := declared_uniforms (length (rtargets s1)) pre (uniforms s1)\<rparr>
            = st\<lparr>rtargets := rtargets st @
                (case canvas st of
                   None \<Rightarrow> []
                 | Some cv \<Rightarrow> declared_targets cv (pixelRatio st) (p # pre)),
             uniforms := declared_uniforms (length (rtargets st)) (p # pre) (uniforms st)\<rparr>"
          unfolding c1 pr1 rt1 us1 Some option.case
          using declared_step[of cv "pixelRatio st" p pre "length (rtargets st)" "uniforms st"]
          by (simp add: s1_def)
        have run: "create_passes js (p # ps) st =
            (r, st\<lparr>rtargets := rtargets st @
                (case canvas st of
                   None \<Rightarrow> []
                 | Some cv \<Rightarrow> declared_targets cv (pixelRatio st)
                               (take (Suc k2) (takeWhile has_source (p # ps)))),
             uniforms := declared_uniforms (length (rtargets st))
                           (take (Suc k2) (takeWhile has_source (p # ps))) (uniforms st)\<rparr>)"
        proof -
          have ok1: "createRenderPass js p st = (Inr rp, s1)" unfolding s1_def by (rule ok)
          have hs: "\<not> (\<not> truthy (fs p) \<and> \<not> truthy (vs p))"
            using True by (simp add: has_source_def)
          have cp: "create_passes js (p # ps) st =
              (case create_passes js ps s1 of
                 (Inl e, st'') \<Rightarrow> (Inl e, st'')
               | (Inr rps, st'') \<Rightarrow> (Inr (rp # rps), st''))"
            using hs ok1 by auto
          show ?thesis
            unfolding tk fin[symmetric] cp run2 pre_def[symmetric] r_def
            by (cases r2) simp_all
        qed
        have full: "canvas st \<noteq> None \<and> vertex_count_ok js st
                      \<longrightarrow> length (takeWhile has_source (p # ps)) \<le> Suc k2"
          using True full2 v1 c1 by simp
        have err: "\<forall>e. r = Inl e \<and> canvas st \<noteq> None \<and> vertex_count_ok js st
                      \<longrightarrow> e = InvalidShaderError"
          using err2 v1 c1 by (cases r2) (simp_all add: r_def)
        from run full err Some show ?thesis
          by (intro exI[of _ r] exI[of _ "Suc k2"]) simp
      qed
    qed
  qed
qed

lemma loadShader_unfold:
  "loadShader js sh st =
     (case create_passes js (specs_of sh) (st\<lparr>disposed := disposed st @ dispose_targets (passes st)\<rparr>) of
        (Inl e, st2) \<Rightarrow> (Some e, st2)
      | (Inr rps, st2) \<Rightarrow> set_value ''FRAMEINDEX'' (UNum 0) (st2\<lparr>passes := rps\<rparr>))"
  by (simp add: loadShader_def specs_of_def Let_def)

lemma ex_loaded_ok: "fst (loadShader ex_runtime (Multi [ex_specA, ex_specD]) ex_ready) = None"
  by (simp add: ex_defs model_defs)

lemma swap_targets_twice: "swap_targets (swap_targets p) = p"
  by (simp add: swap_targets_def)

section \<open>The video loader\<close>




section \<open>Loading and unloading\<close>

text \<open>
  C10. When the uniform table has no entry under a name, unloadTexture with that name
  throws a TypeError (it reads \<^verbatim>\<open>value\<close> of the missing entry) and has done nothing
  before. Entries are never removed from the table, so "no entry" is "none was ever
  installed".
\<close>

theorem unloadTexture_unknown_name_throws:
  assumes "uniforms st name = None"
  shows "unloadTexture isVideo name textureUrl remove st = (Some TypeError, st)"
  using assms by (simp add: unloadTexture_def)

theorem unloadTexture_unknown_name_throws_witness:
  "uniforms ex_new ''tex'' = None
   \<and> unloadTexture (\<lambda>u. False) ''tex'' ''a.png'' True ex_new = (Some TypeError, ex_new)"
  using unloadTexture_unknown_name_throws[of ex_new "''tex''" "\<lambda>u. False" "''a.png''" True]
  by (simp add: ex_new_def new_Veda_def initial_uniforms_def)

text \<open>
  C8. Whenever loadShader returns normally, the uniform FRAMEINDEX holds 0; and it does
  return normally when every spec has a source, the canvas is set, the runtime allocates
  the two typed arrays of createPlane for the current vertex count, and the table has the
  entry FRAMEINDEX (which the constructor installs).
\<close>

theorem loadShader_resets_FRAMEINDEX:
  "(loadShader js sh st = (None, st') \<longrightarrow>
      (\<exists>u. uniforms st' ''FRAMEINDEX'' = Some u \<and> u_value u = UNum 0))
   \<and> (list_all has_source (specs_of sh) \<and> canvas st \<noteq> None \<and> vertex_count_ok js st
        \<and> ''FRAMEINDEX'' \<in> dom (uniforms st) \<longrightarrow>
      fst (loadShader js sh st) = None
      \<and> (\<exists>u. uniforms (snd (loadShader js sh st)) ''FRAMEINDEX'' = Some u
             \<and> u_value u = UNum 0))"
proof -
  have one: "\<exists>u. uniforms st' ''FRAMEINDEX'' = Some u \<and> u_value u = UNum 0"
    if "loadShader js sh st = (None, st')"
    using that
    by (auto simp: loadShader_def Let_def split: prod.splits sum.splits dest!: set_value_None)
  have two: "fst (loadShader js sh st) = None
      \<and> (\<exists>u. uniforms (snd (loadShader js sh st)) ''FRAMEINDEX'' = Some u
             \<and> u_value u = UNum 0)"
    if a: "list_all has_source (specs_of sh) \<and> canvas st \<noteq> None \<and> vertex_count_ok js st
        \<and> ''FRAMEINDEX'' \<in> dom (uniforms st)"
  proof -
    define st1 where "st1 = st\<lparr>disposed := disposed st @ dispose_targets (passes st)\<rparr>"
    obtain r s2 where c: "create_passes js (specs_of sh) st1 = (r, s2)"
      by (cases "create_passes js (specs_of sh) st1")
    from create_passes_shape[OF c] obtain new us where
      e: "s2 = st1\<lparr>rtargets := rtargets st1 @ new, uniforms := us\<rparr>"
      and d: "dom (uniforms st1) \<subseteq> dom us"
      and k: "(case r of
                 Inl e \<Rightarrow> (canvas st1 \<noteq> None \<and> vertex_count_ok js st1
                             \<longrightarrow> e = InvalidShaderError \<and> \<not> list_all has_source (specs_of sh))
               | Inr rps \<Rightarrow> list_all has_source (specs_of sh)
                          \<and> pass_refs rps = [length (rtargets st1)..<length (rtargets st1) + length new]
                          \<and> length new = 2 * length (filter (\<lambda>p. truthy (TARGET p)) (specs_of sh))
                          \<and> map (map_option t_name \<circ> target) rps = declared_names (specs_of sh))"
      by (elim exE conjE) (rule that)
    have v: "vertex_count_ok js st1" and cv: "canvas st1 \<noteq> None"
      using a by (simp_all add: st1_def vertex_count_ok_def)
    from k a v cv obtain rps where r: "r = Inr rps" by (cases r) auto
    have "''FRAMEINDEX'' \<in> dom us" using a d by (auto simp: st1_def)
    then obtain u where u: "uniforms (s2\<lparr>passes := rps\<rparr>) ''FRAMEINDEX'' = Some u"
      by (auto simp: e)
    have "loadShader js sh st = set_value ''FRAMEINDEX'' (UNum 0) (s2\<lparr>passes := rps\<rparr>)"
      using c r by (simp add: loadShader_unfold st1_def[symmetric])
    with u show ?thesis by (simp add: set_value_def)
  qed
  from one two show ?thesis by blast
qed

theorem loadShader_resets_FRAMEINDEX_witness:
  "list_all has_source (specs_of (Multi [ex_specA, ex_specD])) \<and> canvas ex_playing \<noteq> None
   \<and> vertex_count_ok ex_runtime ex_playing \<and> ''FRAMEINDEX'' \<in> dom (uniforms ex_playing)
   \<and> map_option u_value (uniforms ex_playing ''FRAMEINDEX'') = Some (UNum 1)
   \<and> fst (loadShader ex_runtime (Multi [ex_specA, ex_specD]) ex_playing) = None
   \<and> (\<exists>u. uniforms (snd (loadShader ex_runtime (Multi [ex_specA, ex_specD]) ex_playing))
              ''FRAMEINDEX'' = Some u \<and> u_value u = UNum 0)"
proof -
  have h: "list_all has_source (specs_of (Multi [ex_specA, ex_specD])) \<and> canvas ex_playing \<noteq> None
      \<and> vertex_count_ok ex_runtime ex_playing \<and> ''FRAMEINDEX'' \<in> dom (uniforms ex_playing)"
    by (simp add: specs_of_def has_source_def vertex_count_ok_def ex_defs model_defs)
  have before: "map_option u_value (uniforms ex_playing ''FRAMEINDEX'') = Some (UNum 1)"
    by (simp add: ex_defs model_defs)
  from loadShader_resets_FRAMEINDEX[of ex_runtime "Multi [ex_specA, ex_specD]" ex_playing
         "snd (loadShader ex_runtime (Multi [ex_specA, ex_specD]) ex_playing)"] h
  have "fst (loadShader ex_runtime (Multi [ex_specA, ex_specD]) ex_playing) = None
      \<and> (\<exists>u. uniforms (snd (loadShader ex_runtime (Multi [ex_specA, ex_specD]) ex_playing))
              ''FRAMEINDEX'' = Some u \<and> u_value u = UNum 0)"
    by blast
  with h before show ?thesis by simp
qed

text \<open>
  C9 (amended). Before setCanvas, a load request with at least one spec throws and the
  pass list stays as it was: the error is the one of createRenderPass when the first
  spec has a source, and the TypeError of loadShader's own check when it has none. So
  loadFragmentShader and loadVertexShader with a non-empty source throw the setCanvas
  error. A request with no spec at all does not throw.
\<close>

theorem loadShader_before_setCanvas:
  assumes "canvas st = None" and "specs_of sh = p # ps"
  shows "loadShader js sh st =
           (Some (if has_source p then SetCanvasError else InvalidShaderError),
            st\<lparr>disposed := disposed st @ dispose_targets (passes st)\<rparr>)
       \<and> passes (snd (loadShader js sh st)) = passes st
       \<and> fst (loadFragmentShader js src st)
           = Some (if src \<noteq> [] then SetCanvasError else InvalidShaderError)
       \<and> fst (loadVertexShader js src st)
           = Some (if src \<noteq> [] then SetCanvasError else InvalidShaderError)"
  using assms
  by (cases sh)
     (auto simp: loadShader_def loadFragmentShader_def loadVertexShader_def specs_of_def
        has_source_def createRenderPass_def Let_def truthy_def)

theorem loadShader_before_setCanvas_witness:
  "canvas ex_new = None \<and> specs_of (Multi [ex_specA, ex_specD]) = ex_specA # [ex_specD]
   \<and> fst (loadShader ex_runtime (Multi [ex_specA, ex_specD]) ex_new) = Some SetCanvasError
   \<and> passes (snd (loadShader ex_runtime (Multi [ex_specA, ex_specD]) ex_new)) = []
   \<and> fst (loadFragmentShader ex_runtime ''f1'' ex_new) = Some SetCanvasError"
  using loadShader_before_setCanvas[of ex_new "Multi [ex_specA, ex_specD]" ex_specA "[ex_specD]"
          ex_runtime "''f1''"]
  by (simp add: specs_of_def has_source_def truthy_def ex_specA_def ex_new_def new_Veda_def)

theorem loadShader_before_setCanvas_counterexample:
  "canvas ex_new = None \<and> fst (loadShader ex_runtime (Multi []) ex_new) = None"
  by (simp add: loadShader_def ex_new_def new_Veda_def initial_uniforms_def set_value_def)

text \<open>
  C1 (amended). A load request with a spec that has no source fails, and the new passes
  are never installed: the pass list, the backbuffer pair and every render target that
  existed stay as they were. What does not survive is the previous pipeline's textures:
  both textures of every old target are disposed before the first spec is looked at. And
  the build is not undone: the state after the failure is the old one with those
  disposals and with the targets and the uniforms made for the specs the build got
  through, two targets of the canvas size over the pixel ratio for each that declares a
  target. These are the first \<open>k\<close> of the specs before the first one without a source:
  none before setCanvas, and all of them when the canvas is set and the runtime allocates
  the typed arrays for the vertex count; the error is then the TypeError of loadShader's
  own check.
\<close>

theorem loadShader_rejects_sourceless_spec:
  assumes "\<not> list_all has_source (specs_of sh)"
  shows "\<exists>e k new.
           loadShader js sh st =
             (Some e, st\<lparr>disposed := disposed st @ dispose_targets (passes st),
                         rtargets := rtargets st @ new,
                         uniforms := declared_uniforms (length (rtargets st))
                                       (take k (takeWhile has_source (specs_of sh)))
                                       (uniforms st)\<rparr>)
           \<and> length new = 2 * length (filter (\<lambda>p. truthy (TARGET p))
                                          (take k (takeWhile has_source (specs_of sh))))
           \<and> (\<forall>cv. canvas st = Some cv \<and> pixelRatio st \<noteq> 0 \<longrightarrow>
                 new = declared_targets cv (pixelRatio st)
                         (take k (takeWhile has_source (specs_of sh))))
           \<and> (canvas st = None \<longrightarrow> k = 0)
           \<and> (canvas st \<noteq> None \<and> vertex_count_ok js st \<longrightarrow>
                e = InvalidShaderError \<and> length (takeWhile has_source (specs_of sh)) \<le> k)"
proof -
  define st1 where "st1 = st\<lparr>disposed := disposed st @ dispose_targets (passes st)\<rparr>"
  from create_passes_built[of js "specs_of sh" st1] obtain r k where
    c: "create_passes js (specs_of sh) st1 =
      (r, st1\<lparr>rtargets := rtargets st1 @
                (case canvas st1 of
                   None \<Rightarrow> []
                 | Some cv \<Rightarrow> declared_targets cv (pixelRatio st1)
                               (take k (takeWhile has_source (specs_of sh)))),
             uniforms := declared_uniforms (length (rtargets st1))
                           (take k (takeWhile has_source (specs_of sh))) (uniforms st1)\<rparr>)"
    and none: "canvas st1 = None \<longrightarrow> k = 0"
    and full: "canvas st1 \<noteq> None \<and> vertex_count_ok js st1
                 \<longrightarrow> length (takeWhile has_source (specs_of sh)) \<le> k"
    and err: "\<forall>e. r = Inl e \<and> canvas st1 \<noteq> None \<and> vertex_count_ok js st1
                 \<longrightarrow> e = InvalidShaderError"
    by (elim exE conjE) (rule that)
  from create_passes_shape[OF c] assms obtain e where r: "r = Inl e"
    by (cases r) auto
  have v: "vertex_count_ok js st1 = vertex_count_ok js st"
    and cv: "canvas st1 = canvas st"
    by (simp_all add: st1_def vertex_count_ok_def)
  define new where "new = (case canvas st of
                              None \<Rightarrow> []
                            | Some cv \<Rightarrow> declared_targets cv (pixelRatio st)
                                          (take k (takeWhile has_source (specs_of sh))))"
  have c': "create_passes js (specs_of sh) st1 =
             (Inl e, st\<lparr>disposed := disposed st @ dispose_targets (passes st),
                         rtargets := rtargets st @ new,
                         uniforms := declared_uniforms (length (rtargets st))
                                       (take k (takeWhile has_source (specs_of sh)))
                                       (uniforms st)\<rparr>)"
    using c r by (cases "canvas st") (simp_all add: st1_def new_def)
  have A: "loadShader js sh st =
             (Some e, st\<lparr>disposed := disposed st @ dispose_targets (passes st),
                         rtargets := rtargets st @ new,
                         uniforms := declared_uniforms (length (rtargets st))
                                       (take k (takeWhile has_source (specs_of sh)))
                                       (uniforms st)\<rparr>)"
    by (simp add: loadShader_unfold st1_def[symmetric] c')
  have B: "canvas st = None \<longrightarrow> k = 0" using none by (simp add: cv)
  have L: "length new = 2 * length (filter (\<lambda>p. truthy (TARGET p))
                                          (take k (takeWhile has_source (specs_of sh))))"
    using B by (cases "canvas st") (simp_all add: new_def declared_targets_length)
  have N: "\<forall>cv. canvas st = Some cv \<and> pixelRatio st \<noteq> 0 \<longrightarrow>
                 new = declared_targets cv (pixelRatio st)
                         (take k (takeWhile has_source (specs_of sh)))"
    by (simp add: new_def)
  have C: "canvas st \<noteq> None \<and> vertex_count_ok js st \<longrightarrow>
                e = InvalidShaderError \<and> length (takeWhile has_source (specs_of sh)) \<le> k"
    using full err r by (simp add: cv v)
  from A L N B C show ?thesis by (intro exI[of _ e] exI[of _ k] exI[of _ new] conjI)
qed

theorem loadShader_rejects_sourceless_spec_counterexample:
  "\<not> has_source ex_specNone
   \<and> map (map_option t_targets \<circ> target) (passes ex_loaded) = [Some (2, 3), None]
   \<and> disposed ex_loaded = []
   \<and> fst (loadShader ex_runtime (Single ex_specNone) ex_loaded) = Some InvalidShaderError
   \<and> disposed (snd (loadShader ex_runtime (Single ex_specNone) ex_loaded))
        = [TargetTexture 2, TargetTexture 3]
   \<and> snd (loadShader ex_runtime (Single ex_specNone) ex_loaded) \<noteq> ex_loaded"
proof -
  have a: "disposed ex_loaded = []" by (simp add: ex_defs model_defs)
  have b: "disposed (snd (loadShader ex_runtime (Single ex_specNone) ex_loaded))
        = [TargetTexture 2, TargetTexture 3]"
    by (simp add: ex_defs model_defs ex_specNone_def)
  from a b have "snd (loadShader ex_runtime (Single ex_specNone) ex_loaded) \<noteq> ex_loaded" by auto
  moreover have "fst (loadShader ex_runtime (Single ex_specNone) ex_loaded) = Some InvalidShaderError"
    by (simp add: loadShader_def ex_specNone_def truthy_def)
  moreover have "map (map_option t_targets \<circ> target) (passes ex_loaded) = [Some (2, 3), None]"
    by (simp add: ex_defs model_defs)
  moreover have "\<not> has_source ex_specNone" by (simp add: has_source_def ex_specNone_def truthy_def)
  ultimately show ?thesis using a b by simp
qed

theorem loadShader_rejects_sourceless_spec_witness:
  "\<not> list_all has_source (specs_of (Multi [ex_specA, ex_specNone]))
   \<and> canvas ex_loaded = Some ex_canvas \<and> vertex_count_ok ex_runtime ex_loaded
   \<and> takeWhile has_source (specs_of (Multi [ex_specA, ex_specNone])) = [ex_specA]
   \<and> loadShader ex_runtime (Multi [ex_specA, ex_specNone]) ex_loaded =
       (Some InvalidShaderError,
        ex_loaded\<lparr>disposed := [TargetTexture 2, TargetTexture 3],
                  rtargets := rtargets ex_loaded @
                    [new_WebGLRenderTarget 800 600 False, new_WebGLRenderTarget 800 600 False],
                  uniforms := (uniforms ex_loaded)(''A'' \<mapsto>
                    \<lparr>u_type = ''t'', u_value = UTex (TargetTexture 4)\<rparr>)\<rparr>)"
proof -
  have h: "\<not> list_all has_source (specs_of (Multi [ex_specA, ex_specNone]))"
    by (simp add: specs_of_def has_source_def ex_specNone_def truthy_def)
  have tw: "takeWhile has_source (specs_of (Multi [ex_specA, ex_specNone])) = [ex_specA]"
    by (simp add: specs_of_def has_source_def ex_specNone_def ex_specA_def truthy_def)
  have cv: "canvas ex_loaded = Some ex_canvas" and pr: "pixelRatio ex_loaded = 1"
    and len: "length (rtargets ex_loaded) = 4" and dsp: "disposed ex_loaded = []"
    and old: "dispose_targets (passes ex_loaded) = [TargetTexture 2, TargetTexture 3]"
    by (simp_all add: ex_defs model_defs)
  have v: "vertex_count_ok ex_runtime ex_loaded"
    by (simp add: vertex_count_ok_def ex_defs model_defs)
  have pr0: "pixelRatio ex_loaded \<noteq> 0" by (simp add: pr)
  from loadShader_rejects_sourceless_spec[OF h, of ex_runtime ex_loaded] obtain e k new where
    run: "loadShader ex_runtime (Multi [ex_specA, ex_specNone]) ex_loaded =
             (Some e, ex_loaded\<lparr>disposed := disposed ex_loaded @ dispose_targets (passes ex_loaded),
                         rtargets := rtargets ex_loaded @ new,
                         uniforms := declared_uniforms (length (rtargets ex_loaded))
                                       (take k [ex_specA]) (uniforms ex_loaded)\<rparr>)"
    and new: "\<forall>cv. canvas ex_loaded = Some cv \<and> pixelRatio ex_loaded \<noteq> 0 \<longrightarrow>
                 new = declared_targets cv (pixelRatio ex_loaded) (take k [ex_specA])"
    and full: "canvas ex_loaded \<noteq> None \<and> vertex_count_ok ex_runtime ex_loaded \<longrightarrow>
                e = InvalidShaderError \<and> length [ex_specA] \<le> k"
    unfolding tw by (elim exE conjE) (rule that)
  from full cv v have e: "e = InvalidShaderError" and k: "take k [ex_specA] = [ex_specA]"
    by simp_all
  have dt: "declared_targets ex_canvas 1 [ex_specA]
      = [new_WebGLRenderTarget 800 600 False, new_WebGLRenderTarget 800 600 False]"
    by (simp add: declared_targets_def ex_specA_def ex_canvas_def truthy_def numeral_2_eq_2)
  from new cv pr0 have n: "new = [new_WebGLRenderTarget 800 600 False, new_WebGLRenderTarget 800 600 False]"
    by (simp add: k pr dt)
  have du: "declared_uniforms 4 [ex_specA] us
      = us(''A'' \<mapsto> \<lparr>u_type = ''t'', u_value = UTex (TargetTexture 4)\<rparr>)" for us
    by (simp add: ex_specA_def truthy_def)
  from run h tw cv v show ?thesis
    unfolding e k n len dsp old du by simp
qed

text \<open>
  C2 (amended). A successful build makes one fresh buffer pair for every pass that
  declares a target, whether or not an earlier pass declared the same name: the pairs of
  the new pass list are, in order, exactly the store indices added by the build, so no two
  passes share a buffer.
\<close>

theorem loadShader_pair_per_declaring_pass:
  assumes "loadShader js sh st = (None, st')"
  shows "pass_refs (passes st') = [length (rtargets st)..<length (rtargets st')]
       \<and> distinct (pass_refs (passes st'))
       \<and> length (rtargets st')
           = length (rtargets st) + 2 * length (filter (\<lambda>p. truthy (TARGET p)) (specs_of sh))
       \<and> map (map_option t_name \<circ> target) (passes st') = declared_names (specs_of sh)"
proof -
  define st1 where "st1 = st\<lparr>disposed := disposed st @ dispose_targets (passes st)\<rparr>"
  obtain r s2 where c: "create_passes js (specs_of sh) st1 = (r, s2)"
    by (cases "create_passes js (specs_of sh) st1")
  from create_passes_shape[OF c] obtain new us where
    e: "s2 = st1\<lparr>rtargets := rtargets st1 @ new, uniforms := us\<rparr>"
    and k: "(case r of
                 Inl e \<Rightarrow> (canvas st1 \<noteq> None \<and> vertex_count_ok js st1
                             \<longrightarrow> e = InvalidShaderError \<and> \<not> list_all has_source (specs_of sh))
               | Inr rps \<Rightarrow> list_all has_source (specs_of sh)
                          \<and> pass_refs rps = [length (rtargets st1)..<length (rtargets st1) + length new]
                          \<and> length new = 2 * length (filter (\<lambda>p. truthy (TARGET p)) (specs_of sh))
                          \<and> map (map_option t_name \<circ> target) rps = declared_names (specs_of sh))"
    by (elim exE conjE) (rule that)
  from assms c obtain rps where r: "r = Inr rps"
    and sv: "set_value ''FRAMEINDEX'' (UNum 0) (s2\<lparr>passes := rps\<rparr>) = (None, st')"
    by (cases r) (auto simp: loadShader_unfold st1_def[symmetric])
  from set_value_None[OF sv] obtain us' where
    e': "st' = s2\<lparr>passes := rps, uniforms := us'\<rparr>"
    by (elim exE conjE) auto
  have p: "passes st' = rps" and rt: "rtargets st' = rtargets st @ new"
    by (simp_all add: e' e st1_def)
  from k r have
    a: "pass_refs rps = [length (rtargets st)..<length (rtargets st) + length new]"
    and b: "length new = 2 * length (filter (\<lambda>p. truthy (TARGET p)) (specs_of sh))"
    and d: "map (map_option t_name \<circ> target) rps = declared_names (specs_of sh)"
    by (simp_all add: st1_def)
  have "pass_refs (passes st') = [length (rtargets st)..<length (rtargets st')]"
    by (simp add: p rt a)
  moreover from this have "distinct (pass_refs (passes st'))" by simp
  ultimately show ?thesis using b d by (simp add: p rt)
qed

theorem loadShader_pair_per_declaring_pass_counterexample:
  "fst (loadShader ex_runtime (Multi [ex_specA, ex_specA]) ex_ready) = None
   \<and> map (map_option t_name \<circ> target)
        (passes (snd (loadShader ex_runtime (Multi [ex_specA, ex_specA]) ex_ready)))
       = [Some ''A'', Some ''A'']
   \<and> map (map_option t_targets \<circ> target)
        (passes (snd (loadShader ex_runtime (Multi [ex_specA, ex_specA]) ex_ready)))
       = [Some (2, 3), Some (4, 5)]"
  by (simp add: ex_defs model_defs)

theorem loadShader_pair_per_declaring_pass_witness:
  "fst (loadShader ex_runtime (Multi [ex_specA, ex_specA, ex_specD]) ex_ready) = None
   \<and> length (rtargets ex_ready) = 2
   \<and> pass_refs (passes (snd (loadShader ex_runtime (Multi [ex_specA, ex_specA, ex_specD]) ex_ready)))
       = [2, 3, 4, 5]
   \<and> declared_names (specs_of (Multi [ex_specA, ex_specA, ex_specD])) = [Some ''A'', Some ''A'', None]"
proof -
  have ok: "fst (loadShader ex_runtime (Multi [ex_specA, ex_specA, ex_specD]) ex_ready) = None"
    by (simp add: ex_defs model_defs)
  then have run: "loadShader ex_runtime (Multi [ex_specA, ex_specA, ex_specD]) ex_ready
      = (None, snd (loadShader ex_runtime (Multi [ex_specA, ex_specA, ex_specD]) ex_ready))"
    by (simp add: prod_eq_iff)
  have l: "length (rtargets ex_ready) = 2" by (simp add: ex_defs model_defs)
  have f: "length (filter (\<lambda>p. truthy (TARGET p)) (specs_of (Multi [ex_specA, ex_specA, ex_specD]))) = 2"
    by (simp add: specs_of_def ex_specA_def ex_specD_def truthy_def)
  have d: "declared_names (specs_of (Multi [ex_specA, ex_specA, ex_specD])) = [Some ''A'', Some ''A'', None]"
    by (simp add: declared_names_def specs_of_def ex_specA_def ex_specD_def truthy_def)
  have u: "[2..<6] = [2, 3, 4, 5::nat]" by (simp add: upt_rec)
  from loadShader_pair_per_declaring_pass[OF run] ok l f d u show ?thesis by simp
qed

text \<open>
  C5 (amended). Sizes are not clamped. The two buffers of a new pair are created with
  exactly the canvas size divided by the pixel ratio, and each frame the back buffer of a
  pass is resized to exactly what its size functions return.
\<close>

theorem sizes_are_not_clamped:
  assumes "createRenderPass js pass st = (Inr rp, st')" and "target rp = Some t"
    and "canvas st = Some cv" and "pixelRatio st \<noteq> 0"
    and "render_pass_at cv' i s = (None, s')" and "target (passes s ! i) = Some t'"
    and "snd (t_targets t') < length (rtargets s)" and "pixelRatio s \<noteq> 0"
  shows "rtargets st' ! fst (t_targets t)
           = new_WebGLRenderTarget (offsetWidth cv / pixelRatio st) (offsetHeight cv / pixelRatio st)
               (FLOAT pass = Some True)
       \<and> rtargets st' ! snd (t_targets t)
           = new_WebGLRenderTarget (offsetWidth cv / pixelRatio st) (offsetHeight cv / pixelRatio st)
               (FLOAT pass = Some True)
       \<and> t_getWidth t' (offsetWidth cv' / pixelRatio s) (offsetHeight cv' / pixelRatio s)
           = Some (rt_width (rtargets s' ! snd (t_targets t')))
       \<and> t_getHeight t' (offsetWidth cv' / pixelRatio s) (offsetHeight cv' / pixelRatio s)
           = Some (rt_height (rtargets s' ! snd (t_targets t')))"
proof -
  from assms(1-3) have
    "rtargets st' ! fst (t_targets t)
           = new_WebGLRenderTarget (offsetWidth cv / pixelRatio st) (offsetHeight cv / pixelRatio st)
               (FLOAT pass = Some True)
       \<and> rtargets st' ! snd (t_targets t)
           = new_WebGLRenderTarget (offsetWidth cv / pixelRatio st) (offsetHeight cv / pixelRatio st)
               (FLOAT pass = Some True)"
    by (auto simp: createRenderPass_def Let_def nth_append split: sum.splits if_splits)
  moreover from assms(5-7) have
    "t_getWidth t' (offsetWidth cv' / pixelRatio s) (offsetHeight cv' / pixelRatio s)
           = Some (rt_width (rtargets s' ! snd (t_targets t')))
       \<and> t_getHeight t' (offsetWidth cv' / pixelRatio s) (offsetHeight cv' / pixelRatio s)
           = Some (rt_height (rtargets s' ! snd (t_targets t')))"
    using render_pass_at_target(2,3) by blast
  ultimately show ?thesis by simp
qed

theorem sizes_are_not_clamped_counterexample:
  "fst (loadShader ex_runtime (Multi [ex_specNeg]) ex_zero_canvas) = None
   \<and> map rt_width (rtargets (snd (loadShader ex_runtime (Multi [ex_specNeg]) ex_zero_canvas)))
       = [0, 0, 0, 0]
   \<and> fst (render ex_env (snd (loadShader ex_runtime (Multi [ex_specNeg]) ex_ready))) = None
   \<and> map rt_width (rtargets (snd (render ex_env (snd (loadShader ex_runtime (Multi [ex_specNeg]) ex_ready)))))
       = [800, 800, 800, - 5]"
  by (simp add: ex_defs model_defs ex_zero_canvas_def ex_specNeg_def)

theorem sizes_are_not_clamped_witness:
  "canvas ex_ready = Some ex_canvas \<and> pixelRatio ex_ready = 1 \<and> pixelRatio ex_loaded = 1
   \<and> fst (render_pass_at ex_canvas 0 ex_loaded) = None
   \<and> map_option t_targets (target (passes ex_loaded ! 0)) = Some (2, 3)
   \<and> length (rtargets ex_loaded) = 4
   \<and> rtargets (snd (createRenderPass ex_runtime ex_specA ex_ready)) ! 2 = new_WebGLRenderTarget 800 600 False
   \<and> rtargets (snd (createRenderPass ex_runtime ex_specA ex_ready)) ! 3 = new_WebGLRenderTarget 800 600 False
   \<and> rt_width (rtargets (snd (render_pass_at ex_canvas 0 ex_loaded)) ! 3) = 400
   \<and> rt_height (rtargets (snd (render_pass_at ex_canvas 0 ex_loaded)) ! 3) = 600"
proof -
  obtain rp st' t where c: "createRenderPass ex_runtime ex_specA ex_ready = (Inr rp, st')"
    and t: "target rp = Some t" and tt: "t_targets t = (2, 3)"
    by (simp add: ex_defs model_defs)
  have cv: "canvas ex_ready = Some ex_canvas" and pr: "pixelRatio ex_ready \<noteq> 0"
    and pr1: "pixelRatio ex_ready = 1"
    by (simp_all add: ex_defs model_defs)
  have ok: "fst (render_pass_at ex_canvas 0 ex_loaded) = None" by (simp add: ex_defs model_defs)
  then have step: "render_pass_at ex_canvas 0 ex_loaded = (None, snd (render_pass_at ex_canvas 0 ex_loaded))"
    by (simp add: prod_eq_iff)
  obtain t' where t': "target (passes ex_loaded ! 0) = Some t'" and tt': "t_targets t' = (2, 3)"
    and gw: "t_getWidth t' = (\<lambda>w h. Some (w / 2))" and gh: "t_getHeight t' = (\<lambda>w h. Some h)"
    by (simp add: ex_defs model_defs)
  have len: "length (rtargets ex_loaded) = 4" and pr2: "pixelRatio ex_loaded \<noteq> 0"
    and pr3: "pixelRatio ex_loaded = 1"
    by (simp_all add: ex_defs model_defs)
  have lt: "snd (t_targets t') < length (rtargets ex_loaded)" by (simp add: tt' len)
  from c have s: "st' = snd (createRenderPass ex_runtime ex_specA ex_ready)" by simp
  from sizes_are_not_clamped[OF c t cv pr step t' lt pr2]
  show ?thesis
    using cv pr1 pr3 ok len t'
    by (simp add: tt tt' gw gh s ex_canvas_def ex_specA_def)
qed


section \<open>Rendering a frame\<close>

text \<open>
  C6. The swap exchanges front and back, and two swaps restore the pair. A frame swaps
  the backbuffer pair and the pair of every pass exactly once, so after two frames every
  pair is in its original assignment.
\<close>

theorem double_swap_is_identity:
  assumes "render e st = (None, st1)" and "render e' st1 = (None, st2)"
    and "canvas st = Some cv" and "renderer st = Some r"
  shows "(\<forall>p. fst (swap_targets p) = snd p \<and> snd (swap_targets p) = fst p
             \<and> swap_targets (swap_targets p) = p)
       \<and> targets st1 = swap_targets (targets st) \<and> passes st1 = map swap_pass (passes st)
       \<and> targets st2 = targets st \<and> passes st2 = passes st"
proof -
  from render_shape[OF assms(1,3,4)] obtain ds rs us where
    e1: "st1 = st\<lparr>targets := swap_targets (targets st), draws := draws st @ ds, rtargets := rs,
            passes := map swap_pass (passes st), uniforms := us\<rparr>"
    by (elim exE conjE) (rule that)
  have c1: "canvas st1 = Some cv" and r1: "renderer st1 = Some r"
    using assms(3,4) by (simp_all add: e1)
  from render_shape[OF assms(2) c1 r1] obtain ds' rs' us' where
    e2: "st2 = st1\<lparr>targets := swap_targets (targets st1), draws := draws st1 @ ds', rtargets := rs',
            passes := map swap_pass (passes st1), uniforms := us'\<rparr>"
    by (elim exE conjE) (rule that)
  have "map swap_pass (map swap_pass (passes st)) = passes st"
    by (simp add: swap_pass_twice comp_def)
  then show ?thesis
    by (simp add: e2 e1 swap_targets_twice) (simp add: swap_targets_def)
qed

theorem double_swap_is_identity_witness:
  "fst (render ex_env ex_loaded) = None
   \<and> fst (render ex_env (snd (render ex_env ex_loaded))) = None
   \<and> targets ex_loaded = (0, 1)
   \<and> map (map_option t_targets \<circ> target) (passes ex_loaded) = [Some (2, 3), None]
   \<and> targets (snd (render ex_env ex_loaded)) = (1, 0)
   \<and> map (map_option t_targets \<circ> target) (passes (snd (render ex_env ex_loaded))) = [Some (3, 2), None]
   \<and> targets (snd (render ex_env (snd (render ex_env ex_loaded)))) = (0, 1)
   \<and> passes (snd (render ex_env (snd (render ex_env ex_loaded)))) = passes ex_loaded"
proof -
  have ok1: "fst (render ex_env ex_loaded) = None" by (simp add: ex_defs model_defs)
  then have run1: "render ex_env ex_loaded = (None, snd (render ex_env ex_loaded))"
    by (simp add: prod_eq_iff)
  have ok2: "fst (render ex_env (snd (render ex_env ex_loaded))) = None"
    by (simp add: ex_defs model_defs)
  then have run2: "render ex_env (snd (render ex_env ex_loaded))
      = (None, snd (render ex_env (snd (render ex_env ex_loaded))))"
    by (simp add: prod_eq_iff)
  have cv: "canvas ex_loaded = Some ex_canvas"
    and r: "renderer ex_loaded = Some \<lparr>r_pixelRatio = 1\<rparr>"
    and t: "targets ex_loaded = (0, 1)"
    and p: "map (map_option t_targets \<circ> target) (passes ex_loaded) = [Some (2, 3), None]"
    by (simp_all add: ex_defs model_defs)
  have p': "map (map_option t_targets \<circ> target) (map swap_pass (passes ex_loaded)) = [Some (3, 2), None]"
    by (simp add: ex_defs model_defs swap_pass_def)
  from double_swap_is_identity[OF run1 run2 cv r] ok1 ok2 t p p'
  show ?thesis by (simp add: swap_targets_def)
qed

text \<open>
  C3. In a frame that runs to its end, a pass bound to a target pair has its back buffer
  resized to what its size functions give for the canvas size over the pixel ratio, is
  drawn into that back buffer, and the pair is swapped; at the end of the frame the
  uniform under the target's name holds the texture of that buffer, now the front, and
  the buffer holds the draw of this pass made in this frame. This needs what the
  scenario has: no later pass declares the same name or the names PASSINDEX and
  FRAMEINDEX, and the buffers are distinct objects.
\<close>

theorem target_uniform_holds_frame_output:
  assumes run: "render e st = (None, st')" and cv: "canvas st = Some cv"
    and rr: "renderer st = Some r"
    and i: "i < length (passes st)" and t: "target (passes st ! i) = Some t"
    and later: "\<forall>j. i < j \<and> j < length (passes st) \<longrightarrow>
                  map_option t_name (target (passes st ! j)) \<noteq> Some (t_name t)"
    and res: "t_name t \<noteq> ''PASSINDEX''" "t_name t \<noteq> ''FRAMEINDEX''"
    and dist: "distinct (fst (targets st) # snd (targets st) # pass_refs (passes st))"
    and alloc: "snd (t_targets t) < length (rtargets st)"
    and ratio: "pixelRatio st \<noteq> 0"
  shows "target (passes st' ! i) = Some (t\<lparr>t_targets := swap_targets (t_targets t)\<rparr>)
       \<and> (\<exists>u. uniforms st' (t_name t) = Some u
              \<and> u_value u = UTex (TargetTexture (snd (t_targets t))))
       \<and> t_getWidth t (offsetWidth cv / pixelRatio st) (offsetHeight cv / pixelRatio st)
           = Some (rt_width (rtargets st' ! snd (t_targets t)))
       \<and> t_getHeight t (offsetWidth cv / pixelRatio st) (offsetHeight cv / pixelRatio st)
           = Some (rt_height (rtargets st' ! snd (t_targets t)))
       \<and> (\<exists>k. rt_content (rtargets st' ! snd (t_targets t)) = Some k
              \<and> length (draws st) \<le> k \<and> k < length (draws st')
              \<and> draws st' ! k = \<lparr>d_scene = scene (passes st ! i),
                                  d_dest = Some (snd (t_targets t)), d_forceClear = True\<rparr>)"
proof -
  define b where "b = snd (t_targets t)"
  define n where "n = length (passes st)"
  define D where "D = \<lparr>d_scene = scene (passes st ! i), d_dest = Some b, d_forceClear = True\<rparr>"
  \<comment> \<open>the three phases of the frame\<close>
  from render_steps[OF run cv rr] obtain us4 s5 where
    l0: "for_each (render_pass_at cv) [0..<length (passes st)]
          (st\<lparr>targets := swap_targets (targets st), uniforms := us4\<rparr>) = (None, s5)"
    and f: "render_last s5 = (None, st')"
    by (elim exE conjE) (rule that)
  define s4 where "s4 = st\<lparr>targets := swap_targets (targets st), uniforms := us4\<rparr>"
  have l: "for_each (render_pass_at cv) [0..<n] s4 = (None, s5)"
    using l0 by (simp add: n_def s4_def)
  have split: "[0..<n] = [0..<i] @ i # [Suc i..<n]"
  proof -
    have "i < n" using i by (simp add: n_def)
    then have "[0..<n] = [0..<i + (n - i)]" by simp
    also have "\<dots> = [0..<i] @ [i..<i + (n - i)]" by (rule upt_add_eq_append) simp
    also have "\<dots> = [0..<i] @ i # [Suc i..<n]" using \<open>i < n\<close> by (simp add: upt_conv_Cons)
    finally show ?thesis .
  qed
  from l obtain sa sb where
    pre: "for_each (render_pass_at cv) [0..<i] s4 = (None, sa)" and
    step: "render_pass_at cv i sa = (None, sb)" and
    post: "for_each (render_pass_at cv) [Suc i..<n] sb = (None, s5)"
    unfolding split for_each_append
    by (auto dest!: and_then_None split: prod.splits option.splits)
  \<comment> \<open>before pass i\<close>
  from for_each_shape[OF pre distinct_upt] obtain dsa rsa usa psa where
    ea: "sa = s4\<lparr>draws := draws s4 @ dsa, rtargets := rsa, passes := psa, uniforms := usa\<rparr>"
    and la: "length rsa = length (rtargets s4)" and lpa: "length psa = length (passes s4)"
    and pa: "\<forall>j. psa ! j = (if j \<in> set [0..<i] \<and> j < length (passes s4)
                              then swap_pass (passes s4 ! j) else passes s4 ! j)"
    by (elim exE conjE) (rule that)
  have pa_keep: "passes sa ! j = passes st ! j" if "i \<le> j" for j
    using pa that by (simp add: ea s4_def)
  have ta: "target (passes sa ! i) = Some t" using pa_keep[of i] t by simp
  have alloc_a: "snd (t_targets t) < length (rtargets sa)" using alloc la by (simp add: ea s4_def)
  have pr_a: "pixelRatio sa = pixelRatio st" by (simp add: ea s4_def)
  have dr_a: "draws sa = draws st @ dsa" by (simp add: ea s4_def)
  \<comment> \<open>pass i\<close>
  note at = render_pass_at_target[OF step ta alloc_a]
  have dr_b: "draws sb = draws st @ dsa @ [D]"
    using at(1) by (simp add: dr_a D_def b_def pa_keep)
  from at(5) obtain ub where ub: "uniforms sb (t_name t) = Some ub"
    "u_value ub = UTex (TargetTexture b)" unfolding b_def by blast
  from render_pass_at_shape[OF step] obtain d rs us where
    eb: "sb = sa\<lparr>draws := draws sa @ [d], rtargets := rs,
            passes := (passes sa)[i := swap_pass (passes sa ! i)], uniforms := us\<rparr>"
    by (elim exE conjE) (rule that)
  have len_a: "length (passes sa) = n" using lpa by (simp add: ea s4_def n_def)
  have pb_i: "passes sb ! i = swap_pass (passes st ! i)"
    using i len_a by (simp add: eb pa_keep n_def)
  have pb_keep: "passes sb ! j = passes st ! j" if "i < j" for j
    using that by (simp add: eb pa_keep)
  \<comment> \<open>the later passes\<close>
  from for_each_frame[OF post distinct_upt] have
    keep_u: "\<forall>k. k \<noteq> ''PASSINDEX''
              \<and> (\<forall>j\<in>set [Suc i..<n]. Some k \<noteq> map_option t_name (target (passes sb ! j)))
            \<longrightarrow> uniforms s5 k = uniforms sb k"
    by (rule conjunct1)
  from for_each_frame[OF post distinct_upt] have
    keep_r: "\<forall>r. (\<forall>j\<in>set [Suc i..<n]. Some r \<noteq> map_option (snd \<circ> t_targets) (target (passes sb ! j)))
            \<longrightarrow> rtargets s5 ! r = rtargets sb ! r"
    by (rule conjunct2)
  have dps: "distinct (pass_refs (passes st))" using dist by simp
  have u5: "uniforms s5 (t_name t) = Some ub"
  proof -
    have "\<forall>j\<in>set [Suc i..<n]. Some (t_name t) \<noteq> map_option t_name (target (passes sb ! j))"
    proof
      fix j assume "j \<in> set [Suc i..<n]"
      then have ij: "i < j" and jn: "j < length (passes st)" by (simp_all add: n_def)
      with later have "map_option t_name (target (passes st ! j)) \<noteq> Some (t_name t)" by blast
      then show "Some (t_name t) \<noteq> map_option t_name (target (passes sb ! j))"
        unfolding pb_keep[OF ij] by (rule not_sym)
    qed
    with keep_u res(1) ub(1) show ?thesis by simp
  qed
  have r5: "rtargets s5 ! b = rtargets sb ! b"
  proof -
    have "\<forall>j\<in>set [Suc i..<n]. Some b \<noteq> map_option (snd \<circ> t_targets) (target (passes sb ! j))"
    proof
      fix j assume "j \<in> set [Suc i..<n]"
      then have ij: "i < j" and jn: "j < length (passes st)" by (simp_all add: n_def)
      show "Some b \<noteq> map_option (snd \<circ> t_targets) (target (passes sb ! j))"
      proof (cases "target (passes st ! j)")
        case None
        then show ?thesis by (simp add: pb_keep[OF ij])
      next
        case (Some t')
        from pass_refs_distinct_back[OF dps ij jn t Some] Some show ?thesis
          by (auto simp: pb_keep[OF ij] b_def)
      qed
    qed
    with keep_r show ?thesis by simp
  qed
  from for_each_shape[OF post distinct_upt] obtain ds5 rs5 us5 ps5 where
    e5: "s5 = sb\<lparr>draws := draws sb @ ds5, rtargets := rs5, passes := ps5, uniforms := us5\<rparr>"
    and p5: "\<forall>j. ps5 ! j = (if j \<in> set [Suc i..<n] \<and> j < length (passes sb)
                              then swap_pass (passes sb ! j) else passes sb ! j)"
    by (elim exE conjE) (rule that)
  have p5_i: "passes s5 ! i = swap_pass (passes st ! i)" using p5 pb_i by (simp add: e5)
  have dr_5: "draws s5 = draws st @ dsa @ [D] @ ds5" by (simp add: e5 dr_b)
  have tg5: "targets s5 = swap_targets (targets st)" by (simp add: e5 eb ea s4_def)
  \<comment> \<open>after the loop\<close>
  from render_last_frame[OF f] have
    other: "\<forall>k. k \<noteq> ''FRAMEINDEX'' \<longrightarrow> uniforms st' k = uniforms s5 k"
    and keep_last: "\<forall>r. r \<noteq> snd (targets s5) \<longrightarrow> rtargets st' ! r = rtargets s5 ! r"
    by blast+
  from render_last_shape[OF f] obtain dsl rsl usl where
    el: "st' = s5\<lparr>draws := draws s5 @ dsl, rtargets := rsl, uniforms := usl\<rparr>"
    by (elim exE conjE) (rule that)
  have "b \<in> set (pass_refs (passes st))" using pass_refs_mem[OF i t] by (simp add: b_def)
  with dist have "b \<noteq> fst (targets st)" by auto
  then have rl: "rtargets st' ! b = rtargets sb ! b"
    using keep_last r5 by (simp add: tg5 swap_targets_def)
  have ul: "uniforms st' (t_name t) = Some ub" using other res(2) u5 by simp
  have pl: "passes st' ! i = swap_pass (passes st ! i)" using p5_i by (simp add: el)
  have dl: "draws st' = draws st @ dsa @ [D] @ ds5 @ dsl" by (simp add: el dr_5)
  define k where "k = length (draws st) + length dsa"
  have "rt_content (rtargets st' ! b) = Some k"
    using at(4) by (simp add: rl[unfolded b_def] b_def k_def dr_a)
  moreover have "length (draws st) \<le> k" by (simp add: k_def)
  moreover have "k < length (draws st')" by (simp add: dl k_def)
  moreover have "draws st' ! k = D"
    unfolding dl k_def by (simp add: nth_append)
  ultimately have content: "\<exists>k. rt_content (rtargets st' ! b) = Some k
              \<and> length (draws st) \<le> k \<and> k < length (draws st') \<and> draws st' ! k = D" by blast
  have "target (passes st' ! i) = Some (t\<lparr>t_targets := swap_targets (t_targets t)\<rparr>)"
    using t by (simp add: pl swap_pass_def)
  moreover have "\<exists>u. uniforms st' (t_name t) = Some u \<and> u_value u = UTex (TargetTexture b)"
    using ul ub(2) by simp
  moreover have "t_getWidth t (offsetWidth cv / pixelRatio st) (offsetHeight cv / pixelRatio st)
           = Some (rt_width (rtargets st' ! b))"
    using at(2) by (simp add: rl[unfolded b_def] b_def pr_a)
  moreover have "t_getHeight t (offsetWidth cv / pixelRatio st) (offsetHeight cv / pixelRatio st)
           = Some (rt_height (rtargets st' ! b))"
    using at(3) by (simp add: rl[unfolded b_def] b_def pr_a)
  ultimately show ?thesis using content unfolding b_def D_def by simp
qed

theorem target_uniform_holds_frame_output_witness:
  "fst (render ex_env ex_loaded) = None
   \<and> fst (render ex_env2 (snd (render ex_env ex_loaded))) = None
   \<and> map_option u_value (uniforms ex_loaded ''A'') = Some (UTex (TargetTexture 2))
   \<and> map_option t_targets (target (passes ex_loaded ! 0)) = Some (2, 3)
   \<and> length (draws ex_loaded) = 0
   \<and> (\<exists>u. uniforms (snd (render ex_env ex_loaded)) ''A'' = Some u
          \<and> u_value u = UTex (TargetTexture 3))
   \<and> rt_width (rtargets (snd (render ex_env ex_loaded)) ! 3) = 400
   \<and> rt_height (rtargets (snd (render ex_env ex_loaded)) ! 3) = 600
   \<and> (\<exists>k. rt_content (rtargets (snd (render ex_env ex_loaded)) ! 3) = Some k
          \<and> k < length (draws (snd (render ex_env ex_loaded)))
          \<and> draws (snd (render ex_env ex_loaded)) ! k
              = \<lparr>d_scene = scene (passes ex_loaded ! 0), d_dest = Some 3, d_forceClear = True\<rparr>)
   \<and> length (draws (snd (render ex_env ex_loaded))) = 3
   \<and> (\<exists>u. uniforms (snd (render ex_env2 (snd (render ex_env ex_loaded)))) ''A'' = Some u
          \<and> u_value u = UTex (TargetTexture 2))
   \<and> (\<exists>k. rt_content (rtargets (snd (render ex_env2 (snd (render ex_env ex_loaded)))) ! 2) = Some k
          \<and> 3 \<le> k
          \<and> draws (snd (render ex_env2 (snd (render ex_env ex_loaded)))) ! k
              = \<lparr>d_scene = scene (passes ex_loaded ! 0), d_dest = Some 2, d_forceClear = True\<rparr>)"
proof -
  have ok: "fst (render ex_env ex_loaded) = None" by (simp add: ex_defs model_defs)
  then have run: "render ex_env ex_loaded = (None, snd (render ex_env ex_loaded))"
    by (simp add: prod_eq_iff)
  have cv: "canvas ex_loaded = Some ex_canvas"
    and r: "renderer ex_loaded = Some \<lparr>r_pixelRatio = 1\<rparr>"
    and len: "length (passes ex_loaded) = 2"
    and p1: "target (passes ex_loaded ! 1) = None"
    and pr: "pixelRatio ex_loaded = 1"
    and dr: "length (draws ex_loaded) = 0"
    and before: "map_option u_value (uniforms ex_loaded ''A'') = Some (UTex (TargetTexture 2))"
    by (simp_all add: ex_defs model_defs)
  define t where "t = the (target (passes ex_loaded ! 0))"
  have t: "target (passes ex_loaded ! 0) = Some t" and tt: "t_targets t = (2, 3)"
    and tn: "t_name t = ''A''"
    and gw: "t_getWidth t = (\<lambda>w h. Some (w / 2))" and gh: "t_getHeight t = (\<lambda>w h. Some h)"
    by (simp_all add: t_def ex_defs model_defs)
  have i: "0 < length (passes ex_loaded)" by (simp add: len)
  have later: "\<forall>j. 0 < j \<and> j < length (passes ex_loaded) \<longrightarrow>
                  map_option t_name (target (passes ex_loaded ! j)) \<noteq> Some (t_name t)"
    using p1 by (auto simp: len less_Suc_eq numeral_2_eq_2)
  have res: "t_name t \<noteq> ''PASSINDEX''" "t_name t \<noteq> ''FRAMEINDEX''" by (simp_all add: tn)
  have dist: "distinct (fst (targets ex_loaded) # snd (targets ex_loaded) # pass_refs (passes ex_loaded))"
    by (simp add: ex_defs model_defs)
  have alloc: "snd (t_targets t) < length (rtargets ex_loaded)"
    by (simp add: tt) (simp add: ex_defs model_defs)
  have ratio: "pixelRatio ex_loaded \<noteq> 0" by (simp add: pr)
  note first = target_uniform_holds_frame_output[OF run cv r i t later res dist alloc ratio]
  \<comment> \<open>the second frame\<close>
  define s1 where "s1 = snd (render ex_env ex_loaded)"
  have ok': "fst (render ex_env2 s1) = None" by (simp add: s1_def ex_env2_def ex_defs model_defs)
  then have run': "render ex_env2 s1 = (None, snd (render ex_env2 s1))"
    by (simp add: prod_eq_iff)
  have cv': "canvas s1 = Some ex_canvas"
    and r': "renderer s1 = Some \<lparr>r_pixelRatio = 1\<rparr>"
    and len': "length (passes s1) = 2"
    and p1': "target (passes s1 ! 1) = None"
    and dr': "length (draws s1) = 3"
    and sc': "scene (passes s1 ! 0) = scene (passes ex_loaded ! 0)"
    by (simp_all add: s1_def ex_defs model_defs)
  define t' where "t' = the (target (passes s1 ! 0))"
  have t': "target (passes s1 ! 0) = Some t'" and tt': "t_targets t' = (3, 2)"
    and tn': "t_name t' = ''A''"
    by (simp_all add: t'_def s1_def ex_defs model_defs)
  have i': "0 < length (passes s1)" by (simp add: len')
  have later': "\<forall>j. 0 < j \<and> j < length (passes s1) \<longrightarrow>
                  map_option t_name (target (passes s1 ! j)) \<noteq> Some (t_name t')"
    using p1' by (auto simp: len' less_Suc_eq numeral_2_eq_2)
  have res': "t_name t' \<noteq> ''PASSINDEX''" "t_name t' \<noteq> ''FRAMEINDEX''" by (simp_all add: tn')
  have dist': "distinct (fst (targets s1) # snd (targets s1) # pass_refs (passes s1))"
    by (simp add: s1_def ex_defs model_defs)
  have alloc': "snd (t_targets t') < length (rtargets s1)"
    by (simp add: tt') (simp add: s1_def ex_defs model_defs)
  have ratio': "pixelRatio s1 \<noteq> 0" by (simp add: s1_def ex_defs model_defs)
  note second = target_uniform_holds_frame_output[OF run' cv' r' i' t' later' res' dist' alloc' ratio']
  from first second show ?thesis
    using ok ok' before t dr dr'
    by (simp add: tt tn gw gh pr ex_canvas_def tt' tn' sc' s1_def[symmetric]) blast
qed


text \<open>
  C4 (amended). While playing, with a positive stride S and a tick counter f before the
  first of T ticks, in a state where a frame runs to its end: every tick advances the tick
  counter and hands animate to requestAnimationFrame, and the render step set runs on
  exactly the ticks whose counter is a multiple of S. Their number is
  (f + T) div S - f div S, which is T div S when S divides f: the frame index grows by
  it, the backbuffer pair and the pair of every pass are swapped that many times, and that
  many frames of draw calls are made. A tick that renders writes the clock reading into
  the elapsed-time uniform, swaps the backbuffer pair and binds its old back buffer's
  texture to the backbuffer uniform, reads the volume if audio is on, draws the frame and
  swaps every pass's pair; a skipped tick changes nothing but the two counters, so the
  elapsed-time uniform keeps its value.
\<close>

theorem frame_skip_count:
  assumes "frame_ready st" and "isPlaying st" and "0 < frameskip st"
    and "uniforms st ''FRAMEINDEX'' = Some u" and "u_value u = UNum n"
  shows "frame (ticks es st) = frame st + int (length es)
       \<and> rafPending (ticks es st) = rafPending st + length es
       \<and> (\<exists>u'. uniforms (ticks es st) ''FRAMEINDEX'' = Some u'
             \<and> u_value u' = UNum (n + of_nat (renders_due st (length es))))
       \<and> targets (ticks es st) = (swap_targets ^^ renders_due st (length es)) (targets st)
       \<and> passes (ticks es st) = (map swap_pass ^^ renders_due st (length es)) (passes st)
       \<and> length (draws (ticks es st))
           = length (draws st) + renders_due st (length es) * length (frame_draws st)
       \<and> (frameskip st dvd frame st \<longrightarrow>
            int (renders_due st (length es)) = int (length es) div frameskip st)
       \<and> (if frameskip st dvd frame st + 1
          then \<exists>rs us. animate e st = (None, st\<lparr>frame := frame st + 1,
                    targets := swap_targets (targets st),
                    draws := draws st @ frame_draws st, rtargets := rs,
                    passes := map swap_pass (passes st), uniforms := us,
                    rafPending := rafPending st + 1\<rparr>)
                \<and> length rs = length (rtargets st) \<and> dom us = dom (uniforms st)
                \<and> (\<exists>u'. us ''FRAMEINDEX'' = Some u' \<and> u_value u' = UNum (n + 1))
                \<and> (\<exists>u'. us ''time'' = Some u' \<and> u_value u' = UNum ((now e - start st) / 1000))
                \<and> (\<exists>u'. us ''backbuffer'' = Some u'
                       \<and> u_value u' = UTex (TargetTexture (snd (targets st))))
                \<and> (audioEnabled st \<longrightarrow>
                     (\<exists>u'. us ''volume'' = Some u' \<and> u_value u' = UNum (volume e)))
          else animate e st = (None, st\<lparr>frame := frame st + 1, rafPending := rafPending st + 1\<rparr>))"
proof -
  define C where "C = (frame st + int (length es)) div frameskip st - frame st div frameskip st"
  have C0: "0 \<le> C" unfolding C_def using assms(3) by (simp add: zdiv_mono1)
  have due: "renders_due st (length es) = nat C" by (simp add: renders_due_def C_def)
  have real: "(of_nat (nat C) :: real) = of_int C" using C0 by simp
  note c = ticks_count[OF assms, of es, folded C_def]
  have aligned: "frameskip st dvd frame st \<longrightarrow> int (nat C) = int (length es) div frameskip st"
  proof
    assume d: "frameskip st dvd frame st"
    have "C = int (length es) div frameskip st"
      unfolding C_def by (rule div_count_aligned[OF d])
    with C0 show "int (nat C) = int (length es) div frameskip st" by simp
  qed
  note one = animate_tick[OF assms, of e]
  from c aligned one show ?thesis unfolding due real by blast
qed

theorem frame_skip_count_counterexample:
  "isPlaying ex_playing \<and> frameskip ex_playing = 2 \<and> start ex_playing = 0
   \<and> map_option u_value (uniforms ex_playing ''time'') = Some (UNum 1)
   \<and> map_option u_value (uniforms (snd (animate ex_env2 ex_playing)) ''time'') = Some (UNum 1)
   \<and> (now ex_env2 - start ex_playing) / 1000 = 2
   \<and> map_option u_value (uniforms ex_loaded ''FRAMEINDEX'') = Some (UNum 0)
   \<and> map_option u_value (uniforms (ticks [ex_env2, ex_env3] (snd (play ex_env ex_loaded))) ''FRAMEINDEX'')
       = Some (UNum 2)
   \<and> (3 :: int) div 2 = 1
   \<and> fst (loadShader ex_runtime (Single ex_specThrow) ex_ready) = None
   \<and> fst (render ex_env (snd (loadShader ex_runtime (Single ex_specThrow) ex_ready)))
        = Some SizeExpressionError
   \<and> map_option u_value
        (uniforms (ticks [ex_env2, ex_env3, ex_env2]
                     (snd (play ex_env (snd (loadShader ex_runtime (Single ex_specThrow) ex_ready)))))
           ''FRAMEINDEX'')
        = Some (UNum 0)"
  by (simp add: ex_defs model_defs)

theorem frame_skip_count_witness:
  "frame_ready ex_playing \<and> isPlaying ex_playing \<and> frameskip ex_playing = 2 \<and> frame ex_playing = 2
   \<and> map_option u_value (uniforms ex_playing ''FRAMEINDEX'') = Some (UNum 1)
   \<and> renders_due ex_playing 4 = 2
   \<and> frame (ticks [ex_env2, ex_env3, ex_env2, ex_env3] ex_playing) = 6
   \<and> rafPending (ticks [ex_env2, ex_env3, ex_env2, ex_env3] ex_playing) = rafPending ex_playing + 4
   \<and> (\<exists>u'. uniforms (ticks [ex_env2, ex_env3, ex_env2, ex_env3] ex_playing) ''FRAMEINDEX'' = Some u'
          \<and> u_value u' = UNum 3)
   \<and> targets (ticks [ex_env2, ex_env3, ex_env2, ex_env3] ex_playing) = targets ex_playing
   \<and> passes (ticks [ex_env2, ex_env3, ex_env2, ex_env3] ex_playing) = passes ex_playing
   \<and> length (draws (ticks [ex_env2, ex_env3, ex_env2, ex_env3] ex_playing))
       = length (draws ex_playing) + 6
   \<and> animate ex_env2 ex_playing
       = (None, ex_playing\<lparr>frame := 3, rafPending := rafPending ex_playing + 1\<rparr>)
   \<and> draws (snd (animate ex_env3 (snd (animate ex_env2 ex_playing))))
       = draws ex_playing @ frame_draws ex_playing
   \<and> targets (snd (animate ex_env3 (snd (animate ex_env2 ex_playing))))
       = swap_targets (targets ex_playing)
   \<and> (\<exists>u'. uniforms (snd (animate ex_env3 (snd (animate ex_env2 ex_playing)))) ''time'' = Some u'
          \<and> u_value u' = UNum 3)"
proof -
  have ready: "frame_ready ex_playing"
    by (simp add: frame_ready_def sizes_resolve_def ex_defs model_defs)
  have pl: "isPlaying ex_playing" and fs: "frameskip ex_playing = 2" and fr: "frame ex_playing = 2"
    and st: "start ex_playing = 0"
    by (simp_all add: ex_defs model_defs)
  have pos: "0 < frameskip ex_playing" by (simp add: fs)
  have u: "uniforms ex_playing ''FRAMEINDEX'' = Some \<lparr>u_type = ''i'', u_value = UNum 1\<rparr>"
    by (simp add: ex_defs model_defs)
  have v: "u_value \<lparr>u_type = ''i'', u_value = UNum 1\<rparr> = UNum 1" by simp
  have due: "renders_due ex_playing 4 = 2" by (simp add: renders_due_def fs fr)
  have fd: "length (frame_draws ex_playing) = 3"
    by (simp add: frame_draws_def ex_defs model_defs)
  have sw: "(swap_targets ^^ 2) p = p" for p
    by (simp add: numeral_2_eq_2 swap_targets_twice)
  have sp: "(map swap_pass ^^ 2) ps = ps" for ps
    by (simp add: numeral_2_eq_2 swap_pass_twice comp_def)
  note main = frame_skip_count[OF ready pl pos u v, of "[ex_env2, ex_env3, ex_env2, ex_env3]" ex_env2]
  have len: "length [ex_env2, ex_env3, ex_env2, ex_env3] = 4" by simp
  from main have skip: "animate ex_env2 ex_playing
       = (None, ex_playing\<lparr>frame := 3, rafPending := rafPending ex_playing + 1\<rparr>)"
    by (simp add: fs fr)
  define s1 where "s1 = ex_playing\<lparr>frame := 3, rafPending := rafPending ex_playing + 1\<rparr>"
  have ready1: "frame_ready s1" unfolding s1_def using ready by simp
  have pl1: "isPlaying s1" and pos1: "0 < frameskip s1"
    and u1: "uniforms s1 ''FRAMEINDEX'' = Some \<lparr>u_type = ''i'', u_value = UNum 1\<rparr>"
    and dv: "frameskip s1 dvd frame s1 + 1"
    using pl u by (simp_all add: s1_def fs)
  note second = frame_skip_count[OF ready1 pl1 pos1 u1 v, of "[]" ex_env3]
  from second dv obtain rs us where
    run: "animate ex_env3 s1 = (None, s1\<lparr>frame := frame s1 + 1,
                    targets := swap_targets (targets s1),
                    draws := draws s1 @ frame_draws s1, rtargets := rs,
                    passes := map swap_pass (passes s1), uniforms := us,
                    rafPending := rafPending s1 + 1\<rparr>)"
    and tm: "\<exists>u'. us ''time'' = Some u' \<and> u_value u' = UNum ((now ex_env3 - start s1) / 1000)"
    by (simp only: if_True) blast
  have nxt: "snd (animate ex_env2 ex_playing) = s1" by (simp add: skip s1_def)
  have a: "draws (snd (animate ex_env3 s1)) = draws ex_playing @ frame_draws ex_playing"
    and b: "targets (snd (animate ex_env3 s1)) = swap_targets (targets ex_playing)"
    and c: "uniforms (snd (animate ex_env3 s1)) = us"
    by (simp_all add: run) (simp_all add: s1_def frame_draws_def)
  have t3: "(now ex_env3 - start s1) / 1000 = 3" by (simp add: s1_def st ex_env3_def)
  have one: "draws (snd (animate ex_env3 (snd (animate ex_env2 ex_playing))))
       = draws ex_playing @ frame_draws ex_playing
   \<and> targets (snd (animate ex_env3 (snd (animate ex_env2 ex_playing))))
       = swap_targets (targets ex_playing)
   \<and> (\<exists>u'. uniforms (snd (animate ex_env3 (snd (animate ex_env2 ex_playing)))) ''time'' = Some u'
          \<and> u_value u' = UNum 3)"
    unfolding nxt a b c using tm by (simp add: t3)
  from main have run4: "frame (ticks [ex_env2, ex_env3, ex_env2, ex_env3] ex_playing) = 6
   \<and> rafPending (ticks [ex_env2, ex_env3, ex_env2, ex_env3] ex_playing) = rafPending ex_playing + 4
   \<and> (\<exists>u'. uniforms (ticks [ex_env2, ex_env3, ex_env2, ex_env3] ex_playing) ''FRAMEINDEX'' = Some u'
          \<and> u_value u' = UNum 3)
   \<and> targets (ticks [ex_env2, ex_env3, ex_env2, ex_env3] ex_playing) = targets ex_playing
   \<and> passes (ticks [ex_env2, ex_env3, ex_env2, ex_env3] ex_playing) = passes ex_playing
   \<and> length (draws (ticks [ex_env2, ex_env3, ex_env2, ex_env3] ex_playing))
       = length (draws ex_playing) + 6"
    unfolding len due fd sw sp by (simp add: fs fr del: ticks.simps)
  have before: "map_option u_value (uniforms ex_playing ''FRAMEINDEX'') = Some (UNum 1)"
    by (simp add: u)
  from ready pl fs fr before due run4 skip one show ?thesis by (intro conjI) (elim conjE, assumption)+
qed

end
